theory Spec2Isabelle
  imports Complex_Main "HOL-Library.Word"
begin

section \<open>JavaScript strings and values\<close>

text \<open>
  A JavaScript string is a sequence of UTF-16 code units; \<open>length\<close>, \<open>slice\<close>, \<open>trim\<close>
  and the regular expressions of \<open>frontend/app.js\<close> all work on code units. String
  literals of the source are ASCII and are written \<open>lit ''...''\<close>.
\<close>

type_synonym jschar = "16 word"
type_synonym jsstring = "jschar list"

definition lit :: "string \<Rightarrow> jsstring" where
  "lit s = map of_char s"

text \<open>
  The values the program handles: what \<open>JSON.parse\<close> can produce, and \<open>undefined\<close>.
  The program never computes with a Number; it only tests one for truth and converts it
  to a string. \<open>JNum t s\<close> is a Number by these two observations: \<open>t\<close> says whether it
  is truthy (neither zero nor NaN) and \<open>s\<close> is what \<open>String\<close> prints for it.
  \<open>JObj\<close> lists the own properties of a plain object; the first binding of a key is
  the one a lookup sees.
\<close>

datatype jsval =
    JUndefined
  | JNull
  | JBool bool
  | JNum bool jsstring
  | JStr jsstring
  | JArr "jsval list"
  | JObj "(jsstring \<times> jsval) list"

text \<open>ToBoolean.\<close>

fun truthy :: "jsval \<Rightarrow> bool" where
  "truthy JUndefined = False"
| "truthy JNull = False"
| "truthy (JBool b) = b"
| "truthy (JNum t _) = t"
| "truthy (JStr s) = (s \<noteq> [])"
| "truthy (JArr _) = True"
| "truthy (JObj _) = True"

text \<open>The operator \<open>a || b\<close> (both operands of the source are free of effects).\<close>

definition or_else :: "jsval \<Rightarrow> jsval \<Rightarrow> jsval" where
  "or_else a b = (if truthy a then a else b)"

text \<open>What the program can throw or see thrown.\<close>

datatype thrown =
    FetchFailure
  | JsonFailure
  | TypeError
  | Error jsstring

text \<open>
  ToString, the conversion behind \<open>String(v)\<close>, \<open>new Error(v)\<close>,
  \<open>new SpeechSynthesisUtterance(v)\<close> and an assignment to \<open>textContent\<close>. An array is
  joined with commas, \<open>null\<close> and \<open>undefined\<close> elements printing as nothing. A plain
  object prints as \<open>[object Object]\<close> through \<open>Object.prototype.toString\<close>, unless it
  has an own property \<open>toString\<close>: a parsed value is never callable, so the conversion
  finds no method that returns a primitive and throws a TypeError. The elements of an
  array are converted from left to right, and the first that throws ends the conversion
  (\<open>join_comma\<close> joins the results of the elements).
\<close>

fun join_comma :: "(thrown + jsstring) list \<Rightarrow> thrown + jsstring" where
  "join_comma [] = Inr []"
| "join_comma [r] = r"
| "join_comma (r # rs) =
     (case r of
        Inl e \<Rightarrow> Inl e
      | Inr s \<Rightarrow> (case join_comma rs of Inl e \<Rightarrow> Inl e | Inr t \<Rightarrow> Inr (s @ 0x2C # t)))"

fun to_String :: "jsval \<Rightarrow> thrown + jsstring" where
  "to_String JUndefined = Inr (lit ''undefined'')"
| "to_String JNull = Inr (lit ''null'')"
| "to_String (JBool b) = Inr (if b then lit ''true'' else lit ''false'')"
| "to_String (JNum _ s) = Inr s"
| "to_String (JStr s) = Inr s"
| "to_String (JArr vs) =
     join_comma
       (map (\<lambda>v. if v = JUndefined \<or> v = JNull then Inr [] else to_String v) vs)"
| "to_String (JObj kvs) =
     (if map_of kvs (lit ''toString'') = None then Inr (lit ''[object Object]'')
      else Inl TypeError)"

text \<open>
  The conversion of a value assigned to the nullable string attribute \<open>textContent\<close>:
  \<open>null\<close> and \<open>undefined\<close> give the empty text.
\<close>

definition to_DOMString :: "jsval \<Rightarrow> thrown + jsstring" where
  "to_DOMString v = (case v of JUndefined \<Rightarrow> Inr [] | JNull \<Rightarrow> Inr [] | _ \<Rightarrow> to_String v)"

text \<open>
  Property access \<open>v.k\<close>, for the keys the program reads (\<open>error\<close>, \<open>currentSpeaker\<close>,
  \<open>mode\<close>, \<open>reply\<close>, \<open>transcript\<close>: none of them is a property of a string, a
  number, a boolean or an array). Reading a property of \<open>null\<close> or \<open>undefined\<close>
  throws a TypeError.
\<close>

fun get_prop :: "jsval \<Rightarrow> jsstring \<Rightarrow> thrown + jsval" where
  "get_prop JUndefined k = Inl TypeError"
| "get_prop JNull k = Inl TypeError"
| "get_prop (JObj kvs) k = Inr (case map_of kvs k of None \<Rightarrow> JUndefined | Some v \<Rightarrow> v)"
| "get_prop _ k = Inr JUndefined"

text \<open>Optional chaining: \<open>v?.k\<close> and \<open>v?.[0]\<close>.\<close>

definition opt_prop :: "jsval \<Rightarrow> jsstring \<Rightarrow> jsval" where
  "opt_prop v k = (case get_prop v k of Inl _ \<Rightarrow> JUndefined | Inr x \<Rightarrow> x)"

fun opt_index0 :: "jsval \<Rightarrow> jsval" where
  "opt_index0 (JArr vs) = (case vs of [] \<Rightarrow> JUndefined | x # _ \<Rightarrow> x)"
| "opt_index0 (JStr s) = (case s of [] \<Rightarrow> JUndefined | c # _ \<Rightarrow> JStr [c])"
| "opt_index0 (JObj kvs) = (case map_of kvs (lit ''0'') of None \<Rightarrow> JUndefined | Some v \<Rightarrow> v)"
| "opt_index0 _ = JUndefined"

section \<open>The text sanitizer\<close>

text \<open>The character class \<open>[<>`$\\]\<close>.\<close>

definition is_unsafe :: "jschar \<Rightarrow> bool" where
  "is_unsafe c \<longleftrightarrow> c \<in> {0x3C, 0x3E, 0x60, 0x24, 0x5C}"

text \<open>
  The class \<open>\s\<close>, which is also what \<open>trim\<close> strips: WhiteSpace and LineTerminator
  of ECMAScript.
\<close>

definition is_ws :: "jschar \<Rightarrow> bool" where
  "is_ws c \<longleftrightarrow>
     c \<in> {0x09, 0x0A, 0x0B, 0x0C, 0x0D, 0x20, 0xA0, 0x1680, 0x2028, 0x2029,
           0x202F, 0x205F, 0x3000, 0xFEFF}
     \<or> (0x2000 \<le> c \<and> c \<le> 0x200A)"

text \<open>\<open>.replace(/[<>`$\\]/g, ' ')\<close>\<close>

definition replace_unsafe :: "jsstring \<Rightarrow> jsstring" where
  "replace_unsafe s = map (\<lambda>c. if is_unsafe c then 0x20 else c) s"

text \<open>\<open>.replace(/\s+/g, ' ')\<close>: every maximal run of whitespace becomes one space.\<close>

function collapse_ws :: "jsstring \<Rightarrow> jsstring" where
  "collapse_ws [] = []"
| "collapse_ws (c # cs) =
     (if is_ws c then 0x20 # collapse_ws (dropWhile is_ws cs) else c # collapse_ws cs)"
  by pat_completeness auto
termination
  by (relation "measure length") (auto simp: less_Suc_eq_le length_dropWhile_le)

definition trim :: "jsstring \<Rightarrow> jsstring" where
  "trim s = rev (dropWhile is_ws (rev (dropWhile is_ws s)))"

text \<open>\<open>.slice(0, n)\<close> for \<open>n \<ge> 0\<close>.\<close>

definition slice0 :: "nat \<Rightarrow> jsstring \<Rightarrow> jsstring" where
  "slice0 n s = take n s"

text \<open>\<open>String(text || '')\<close> may throw; the four string methods after it cannot.\<close>

definition sanitizeSpokenInput :: "jsval \<Rightarrow> thrown + jsstring" where
  "sanitizeSpokenInput text =
     (case to_String (or_else text (JStr [])) of
        Inl e \<Rightarrow> Inl e
      | Inr s \<Rightarrow> Inr (slice0 600 (trim (collapse_ws (replace_unsafe s)))))"

section \<open>Configuration, interaction state and UI\<close>

definition API_BASE_URL :: jsstring where
  "API_BASE_URL = lit ''https://lyra-backend-16xj.onrender.com''"

definition LANG :: jsstring where
  "LANG = lit ''en-IN''"

text \<open>
  \<open>state.status\<close> is only ever assigned a string literal; \<open>state.currentSpeaker\<close> and
  \<open>state.mode\<close> take whatever value a response carries.
\<close>

record state =
  status :: jsstring
  currentSpeaker :: jsval
  mode :: jsval
  recognitionActive :: bool

text \<open>
  The four DOM elements, which the page is taken to have (\<open>getElementById\<close> finds
  each of them): the text each of the three text elements shows, and the token list of the
  button's \<open>classList\<close>.
\<close>

record ui =
  statusText :: jsstring
  speakerText :: jsstring
  modeText :: jsstring
  micButton :: "jsstring list"

text \<open>
  A voice of the platform. Its \<open>lang\<close> and \<open>name\<close> are strings; \<open>None\<close> stands for
  a voice object that lacks the attribute (\<open>undefined\<close>).
\<close>

record voice =
  lang :: "jsstring option"
  name :: "jsstring option"

record utterance =
  utt_text :: jsstring
  utt_lang :: jsstring
  utt_rate :: real
  utt_pitch :: real
  utt_voice :: "voice option"

record payload =
  message :: jsstring
  req_currentSpeaker :: jsval
  req_mode :: jsval

record request =
  url :: jsstring
  http_method :: jsstring
  content_type :: jsstring
  body :: payload

text \<open>Both timer callbacks of the source are \<open>() => setStatus('Idle')\<close>.\<close>

datatype callback = SetStatusIdle

datatype effect =
    ConsoleError thrown
  | SynthCancel
  | SynthSpeak utterance
  | RecognitionStart
  | RecognitionStop

text \<open>
  Everything the script can read or change: the \<open>state\<close> and \<open>ui\<close> objects, the
  variable \<open>recognition\<close> (null or not), the two platform capabilities
  (\<open>SpeechRecognition\<close> and \<open>speechSynthesisRef\<close>, truthy or not), the list
  \<open>getVoices()\<close> returns, the calls made to the platform so far, the timers set and
  not yet fired, and the fetches issued and not yet settled.
\<close>

record world =
  state :: state
  ui :: ui
  recognition :: bool
  hasSpeechRecognition :: bool
  hasSpeechSynthesis :: bool
  voices :: "voice list"
  effects :: "effect list"
  timers :: "(nat \<times> callback) list"
  requests :: "request list"

text \<open>
  A piece of code run on a world gives the world it leaves and, when it throws, the
  exception: \<open>(Some e, w')\<close> says that \<open>e\<close> was thrown with the world at \<open>w'\<close>, so
  what was assigned before the throw stays assigned. \<open>block\<close> runs statements in order
  up to the first that throws; \<open>stmt\<close> is a statement that cannot throw.
\<close>

type_synonym action = "world \<Rightarrow> thrown option \<times> world"

fun block :: "action list \<Rightarrow> action" where
  "block [] w = (None, w)"
| "block (a # as) w =
     (case a w of (Some e, w') \<Rightarrow> (Some e, w') | (None, w') \<Rightarrow> block as w')"

definition stmt :: "(world \<Rightarrow> world) \<Rightarrow> action" where
  "stmt f w = (None, f w)"

text \<open>\<open>classList.remove(...)\<close> and \<open>classList.add(c)\<close> on a token list.\<close>

definition classList_remove :: "jsstring list \<Rightarrow> jsstring list \<Rightarrow> jsstring list" where
  "classList_remove cs l = filter (\<lambda>c. c \<notin> set cs) l"

definition classList_add :: "jsstring \<Rightarrow> jsstring list \<Rightarrow> jsstring list" where
  "classList_add c l = (if c \<in> set l then l else l @ [c])"

text \<open>
  The three assignments to \<open>textContent\<close> (lines 25 to 27): each converts its value to
  a string first, and assigns nothing when the conversion throws.
\<close>

definition set_statusText :: "jsval \<Rightarrow> action" where
  "set_statusText v w =
     (case to_DOMString v of
        Inl e \<Rightarrow> (Some e, w)
      | Inr s \<Rightarrow> (None, w\<lparr>ui := (ui w)\<lparr>statusText := s\<rparr>\<rparr>))"

definition set_speakerText :: "jsval \<Rightarrow> action" where
  "set_speakerText v w =
     (case to_DOMString v of
        Inl e \<Rightarrow> (Some e, w)
      | Inr s \<Rightarrow> (None, w\<lparr>ui := (ui w)\<lparr>speakerText := s\<rparr>\<rparr>))"

definition set_modeText :: "jsval \<Rightarrow> action" where
  "set_modeText v w =
     (case to_DOMString v of
        Inl e \<Rightarrow> (Some e, w)
      | Inr s \<Rightarrow> (None, w\<lparr>ui := (ui w)\<lparr>modeText := s\<rparr>\<rparr>))"

text \<open>Lines 29 to 32: the class list of the button.\<close>

definition update_classes :: "world \<Rightarrow> world" where
  "update_classes w =
     (let s = state w;
          l0 = classList_remove [lit ''listening'', lit ''thinking'', lit ''error''] (micButton (ui w));
          l1 = (if status s = lit ''Listening'' then classList_add (lit ''listening'') l0 else l0);
          l2 = (if status s = lit ''Thinking'' then classList_add (lit ''thinking'') l1 else l1);
          l3 = (if status s = lit ''Error'' then classList_add (lit ''error'') l2 else l2)
      in w\<lparr>ui := (ui w)\<lparr>micButton := l3\<rparr>\<rparr>)"

definition updateUI :: action where
  "updateUI w =
     block
       [set_statusText (JStr (status (state w))),
        set_speakerText (currentSpeaker (state w)),
        set_modeText (mode (state w)),
        stmt update_classes] w"

definition setStatus :: "jsstring \<Rightarrow> action" where
  "setStatus v = block [stmt (\<lambda>w. w\<lparr>state := (state w)\<lparr>status := v\<rparr>\<rparr>), updateUI]"

section \<open>Voice selection and speech output\<close>

text \<open>
  A case-insensitive regular expression that is an alternation of ASCII literals, tested
  against a voice attribute: some alternative occurs somewhere in the subject, letters
  compared up to ASCII case (without the \<open>u\<close> flag no character outside ASCII is
  folded onto an ASCII letter). A missing attribute is tested as the text \<open>undefined\<close>.
\<close>

definition fold_case :: "jschar \<Rightarrow> jschar" where
  "fold_case c = (if 0x61 \<le> c \<and> c \<le> 0x7A then c - 0x20 else c)"

fun matches_at :: "jsstring \<Rightarrow> jsstring \<Rightarrow> bool" where
  "matches_at [] s = True"
| "matches_at (p # ps) [] = False"
| "matches_at (p # ps) (c # cs) = (fold_case p = fold_case c \<and> matches_at ps cs)"

fun occurs_in :: "jsstring \<Rightarrow> jsstring \<Rightarrow> bool" where
  "occurs_in p [] = matches_at p []"
| "occurs_in p (c # cs) = (matches_at p (c # cs) \<or> occurs_in p cs)"

definition regex_test_i :: "string list \<Rightarrow> jsstring option \<Rightarrow> bool" where
  "regex_test_i alts v =
     list_ex (\<lambda>p. occurs_in (lit p) (case v of None \<Rightarrow> lit ''undefined'' | Some s \<Rightarrow> s)) alts"

definition lang_preferred :: "voice \<Rightarrow> bool" where
  "lang_preferred v = regex_test_i [''en-IN'', ''hi-IN'', ''mr-IN''] (lang v)"

definition name_preferred :: "voice \<Rightarrow> bool" where
  "name_preferred v =
     regex_test_i [''female'', ''zira'', ''heera'', ''priya'', ''veena'', ''raveena'', ''sangeeta'']
       (name v)"

text \<open>
  \<open>getPreferredVoice\<close>, as a function of the list \<open>getVoices()\<close> returns; \<open>None\<close> is
  \<open>undefined\<close>. A voice is an object, hence truthy, so each \<open>||\<close> falls through
  exactly when \<open>find\<close> returned \<open>undefined\<close>.
\<close>

definition getPreferredVoice :: "voice list \<Rightarrow> voice option" where
  "getPreferredVoice vs =
     (case find lang_preferred vs of
        Some v \<Rightarrow> Some v
      | None \<Rightarrow>
         (case find name_preferred vs of
            Some v \<Rightarrow> Some v
          | None \<Rightarrow> (case vs of [] \<Rightarrow> None | v # _ \<Rightarrow> Some v)))"

text \<open>
  \<open>speak\<close>: the cancel comes first, then the utterance is constructed, which converts
  the text to a string and may throw; only then is it submitted.
\<close>

definition speak :: "jsval \<Rightarrow> action" where
  "speak text w =
     (if \<not> hasSpeechSynthesis w \<or> \<not> truthy text then (None, w)
      else
        let w1 = w\<lparr>effects := effects w @ [SynthCancel]\<rparr> in
        (case to_String text of
           Inl e \<Rightarrow> (Some e, w1)
         | Inr s \<Rightarrow>
            (None,
             w1\<lparr>effects := effects w1 @
                [SynthSpeak \<lparr>utt_text = s, utt_lang = LANG, utt_rate = 1, utt_pitch = 1.02,
                             utt_voice = getPreferredVoice (voices w1)\<rparr>]\<rparr>)))"

section \<open>The conversation client\<close>

text \<open>
  \<open>sendToLyra\<close> is an async function: what it throws rejects the promise it returns,
  which no caller handles. \<open>sendToLyra_request\<close> is what it does up to its first
  \<open>await\<close>: either the fetch is issued and the function suspends, or it has ended
  before (an exception from \<open>setStatus('Thinking')\<close>, which stands outside the
  \<open>try\<close>, or the \<open>catch\<close> block run for an exception of the sanitizer). What the
  network does is an \<open>outcome\<close>: \<open>fetch\<close> rejects, or resolves with a response whose
  \<open>ok\<close> flag is given and whose \<open>json()\<close> rejects or resolves with a value. The
  function reads nothing between its two awaits, so its continuation is one step,
  \<open>sendToLyra_settle\<close>, run on the world as it is when the body arrives.
\<close>

datatype json_result = JsonRejected | JsonParsed jsval

datatype outcome = FetchRejected | Responded bool json_result

definition console_error :: "thrown \<Rightarrow> world \<Rightarrow> world" where
  "console_error e w = w\<lparr>effects := effects w @ [ConsoleError e]\<rparr>"

definition setTimeout :: "callback \<Rightarrow> nat \<Rightarrow> world \<Rightarrow> world" where
  "setTimeout cb ms w = w\<lparr>timers := timers w @ [(ms, cb)]\<rparr>"

definition fetch :: "request \<Rightarrow> world \<Rightarrow> world" where
  "fetch r w = w\<lparr>requests := requests w @ [r]\<rparr>"

text \<open>The \<open>catch\<close> block, lines 102 to 105.\<close>

definition catch_block :: "thrown \<Rightarrow> action" where
  "catch_block e =
     block
       [stmt (console_error e),
        setStatus (lit ''Error''),
        speak (JStr (lit ''Sorry, I am facing a connection issue right now. Please try again.'')),
        stmt (setTimeout SetStatusIdle 1200)]"

text \<open>
  The \<open>try\<close> block after the awaits, statement by statement (lines 89 to 100). The
  result is the exception thrown, if any, and the world at that point.
  \<open>new Error(m)\<close> converts \<open>m\<close> to a string, so the \<open>throw\<close> of line 92 throws
  either the Error or the TypeError of that conversion.
\<close>

definition try_block :: "outcome \<Rightarrow> action" where
  "try_block out w =
     (case out of
        FetchRejected \<Rightarrow> (Some FetchFailure, w)
      | Responded ok b \<Rightarrow>
         (case b of
            JsonRejected \<Rightarrow> (Some JsonFailure, w)
          | JsonParsed data \<Rightarrow>
             if \<not> ok then
               (case get_prop data (lit ''error'') of
                  Inl e \<Rightarrow> (Some e, w)
                | Inr msg \<Rightarrow>
                   (case to_String (or_else msg (JStr (lit ''Unable to process request.''))) of
                      Inl e \<Rightarrow> (Some e, w)
                    | Inr m \<Rightarrow> (Some (Error m), w)))
             else
               (case get_prop data (lit ''currentSpeaker'') of
                  Inl e \<Rightarrow> (Some e, w)
                | Inr sp \<Rightarrow>
                   let w1 = w\<lparr>state := (state w)
                              \<lparr>currentSpeaker := or_else sp (currentSpeaker (state w))\<rparr>\<rparr>
                   in
                   (case get_prop data (lit ''mode'') of
                      Inl e \<Rightarrow> (Some e, w1)
                    | Inr md \<Rightarrow>
                       let w2 = w1\<lparr>state := (state w1)\<lparr>mode := or_else md (mode (state w1))\<rparr>\<rparr>
                       in
                       (case updateUI w2 of
                          (Some e, w3) \<Rightarrow> (Some e, w3)
                        | (None, w3) \<Rightarrow>
                           (case get_prop data (lit ''reply'') of
                              Inl e \<Rightarrow> (Some e, w3)
                            | Inr rp \<Rightarrow>
                               block
                                 [speak
                                    (or_else rp
                                       (JStr (lit ''Sorry, I could not generate a response right now.''))),
                                  setStatus (lit ''Idle'')] w3))))))"

definition sendToLyra_settle :: "outcome \<Rightarrow> action" where
  "sendToLyra_settle out w =
     (case try_block out w of
        (None, w') \<Rightarrow> (None, w')
      | (Some e, w') \<Rightarrow> catch_block e w')"

definition lyra_request :: "jsstring \<Rightarrow> world \<Rightarrow> request" where
  "lyra_request m w =
     \<lparr>url = API_BASE_URL @ lit ''/lyra'', http_method = lit ''POST'',
      content_type = lit ''application/json'',
      body = \<lparr>message = m, req_currentSpeaker = currentSpeaker (state w),
               req_mode = mode (state w)\<rparr>\<rparr>"

definition sendToLyra_request :: "jsval \<Rightarrow> action" where
  "sendToLyra_request userText w =
     (case setStatus (lit ''Thinking'') w of
        (Some e, w1) \<Rightarrow> (Some e, w1)
      | (None, w1) \<Rightarrow>
         (case sanitizeSpokenInput userText of
            Inl e \<Rightarrow> catch_block e w1
          | Inr m \<Rightarrow> (None, fetch (lyra_request m w1) w1)))"

text \<open>
  One invocation run to completion, nothing else happening between the fetch and its
  outcome (the fetch is settled at once and never joins the pending ones).
\<close>

definition sendToLyra :: "jsval \<Rightarrow> outcome \<Rightarrow> action" where
  "sendToLyra userText out w =
     (case setStatus (lit ''Thinking'') w of
        (Some e, w1) \<Rightarrow> (Some e, w1)
      | (None, w1) \<Rightarrow>
         (case sanitizeSpokenInput userText of
            Inl e \<Rightarrow> catch_block e w1
          | Inr m \<Rightarrow> sendToLyra_settle out w1))"

section \<open>Speech recognition and the event loop\<close>

text \<open>
  \<open>buildRecognition\<close>; its result is assigned to the variable \<open>recognition\<close> when it
  returns.
\<close>

definition buildRecognition :: action where
  "buildRecognition w =
     (if \<not> hasSpeechRecognition w then
        (case block
                [setStatus (lit ''Error''),
                 speak (JStr (lit ''Speech recognition is not supported in this browser. Please use Chrome.''))]
                w of
           (Some e, w') \<Rightarrow> (Some e, w')
         | (None, w') \<Rightarrow> (None, w'\<lparr>recognition := False\<rparr>))
      else (None, w\<lparr>recognition := True\<rparr>))"

definition onstart :: action where
  "onstart =
     block
       [stmt (\<lambda>w. w\<lparr>state := (state w)\<lparr>recognitionActive := True\<rparr>\<rparr>),
        setStatus (lit ''Listening'')]"

text \<open>
  The result event is an object; \<open>results\<close> is the value of its property of that name
  (\<open>JUndefined\<close> when it has none).
\<close>

definition extract_transcript :: "jsval \<Rightarrow> jsval" where
  "extract_transcript results =
     or_else (opt_prop (opt_index0 (opt_index0 results)) (lit ''transcript'')) (JStr [])"

definition onresult :: "jsval \<Rightarrow> action" where
  "onresult results w =
     (case sanitizeSpokenInput (extract_transcript results) of
        Inl e \<Rightarrow> (Some e, w)
      | Inr cleaned \<Rightarrow>
         if cleaned = [] then setStatus (lit ''Idle'') w
         else sendToLyra_request (JStr cleaned) w)"

definition onerror :: action where
  "onerror =
     block
       [stmt (\<lambda>w. w\<lparr>state := (state w)\<lparr>recognitionActive := False\<rparr>\<rparr>),
        setStatus (lit ''Error''),
        speak (JStr (lit ''I could not hear you clearly. Please try again.'')),
        stmt (setTimeout SetStatusIdle 1000)]"

definition onend :: action where
  "onend =
     block
       [stmt (\<lambda>w. w\<lparr>state := (state w)\<lparr>recognitionActive := False\<rparr>\<rparr>),
        (\<lambda>w. if status (state w) = lit ''Listening'' then setStatus (lit ''Idle'') w
              else (None, w))]"

text \<open>The click listener; \<open>start_throws\<close> says whether \<open>recognition.start()\<close> throws.\<close>

definition onclick :: "bool \<Rightarrow> action" where
  "onclick start_throws w =
     (if \<not> recognition w then buildRecognition w
      else if recognitionActive (state w) then
        block
          [stmt (\<lambda>w. w\<lparr>effects := effects w @ [RecognitionStop]\<rparr>),
           setStatus (lit ''Idle'')] w
      else if start_throws then setStatus (lit ''Idle'') w
      else (None, w\<lparr>effects := effects w @ [RecognitionStart]\<rparr>))"

fun run_callback :: "callback \<Rightarrow> action" where
  "run_callback SetStatusIdle w = setStatus (lit ''Idle'') w"

text \<open>
  The events the loop delivers. The recognition callbacks exist only on a recognition
  object that was built; a timer or a fetch is taken by its position among the pending
  ones, so they may complete in any order. \<open>handle\<close> runs the code of an event;
  \<open>step\<close> is the world it leaves, whether it returned or threw (an exception that
  escapes a handler, and a rejected promise nobody awaits, end that handler and nothing
  else).
\<close>

datatype event =
    Click bool
  | RecStart
  | RecResult jsval
  | RecError
  | RecEnd
  | TimerFired nat
  | FetchSettled nat outcome
  | VoicesChanged "voice list"

definition drop_nth :: "nat \<Rightarrow> 'a list \<Rightarrow> 'a list" where
  "drop_nth i xs = take i xs @ drop (Suc i) xs"

fun handle :: "event \<Rightarrow> action" where
  "handle (Click start_throws) w = onclick start_throws w"
| "handle RecStart w = (if recognition w then onstart w else (None, w))"
| "handle (RecResult results) w = (if recognition w then onresult results w else (None, w))"
| "handle RecError w = (if recognition w then onerror w else (None, w))"
| "handle RecEnd w = (if recognition w then onend w else (None, w))"
| "handle (TimerFired i) w =
     (if i < length (timers w)
      then run_callback (snd (timers w ! i)) (w\<lparr>timers := drop_nth i (timers w)\<rparr>)
      else (None, w))"
| "handle (FetchSettled i out) w =
     (if i < length (requests w)
      then sendToLyra_settle out (w\<lparr>requests := drop_nth i (requests w)\<rparr>)
      else (None, w))"
| "handle (VoicesChanged vs) w = (None, w\<lparr>voices := vs\<rparr>)"

definition step :: "event \<Rightarrow> world \<Rightarrow> world" where
  "step e w = snd (handle e w)"

fun run :: "event list \<Rightarrow> world \<Rightarrow> world" where
  "run [] w = w"
| "run (e # es) w = run es (step e w)"

text \<open>
  Loading the script: the initial \<open>state\<close>, \<open>let recognition = buildRecognition()\<close>
  and the final \<open>updateUI()\<close>, on a page whose button carries the classes \<open>classes\<close>
  and whose text elements show \<open>t0\<close>.
\<close>

definition initial_state :: state where
  "initial_state =
     \<lparr>status = lit ''Idle'', currentSpeaker = JStr (lit ''Chaitu''),
      mode = JStr (lit ''CHILL''), recognitionActive = False\<rparr>"

definition boot :: "bool \<Rightarrow> bool \<Rightarrow> voice list \<Rightarrow> jsstring list \<Rightarrow> jsstring \<Rightarrow> world" where
  "boot has_rec has_synth vs classes t0 =
     snd (block [buildRecognition, updateUI]
       \<lparr>state = initial_state,
        ui = \<lparr>statusText = t0, speakerText = t0, modeText = t0, micButton = classes\<rparr>,
        recognition = False,
        hasSpeechRecognition = has_rec,
        hasSpeechSynthesis = has_synth,
        voices = vs,
        effects = [],
        timers = [],
        requests = []\<rparr>)"

section \<open>Notions used in the statements\<close>

text \<open>
  The values ToString throws on: an object with an own property \<open>toString\<close>, and an
  array that holds one, at any depth.
\<close>

fun unconvertible :: "jsval \<Rightarrow> bool" where
  "unconvertible (JObj kvs) = (map_of kvs (lit ''toString'') \<noteq> None)"
| "unconvertible (JArr vs) = list_ex unconvertible vs"
| "unconvertible _ = False"

text \<open>A world whose speaker and mode the UI can show.\<close>

definition displayable :: "world \<Rightarrow> bool" where
  "displayable w \<longleftrightarrow>
     \<not> unconvertible (currentSpeaker (state w)) \<and> \<not> unconvertible (mode (state w))"

text \<open>
  The outcomes on which the \<open>try\<close> block throws before it assigns anything: a rejected
  fetch, a body that does not parse, a status that is not ok, a body that is \<open>null\<close>.
\<close>

definition throws_early :: "outcome \<Rightarrow> bool" where
  "throws_early out \<longleftrightarrow>
     (case out of
        FetchRejected \<Rightarrow> True
      | Responded ok JsonRejected \<Rightarrow> True
      | Responded ok (JsonParsed d) \<Rightarrow> \<not> ok \<or> d = JNull \<or> d = JUndefined)"

text \<open>The world after the two assignments of lines 95 and 96.\<close>

definition assigned :: "jsval \<Rightarrow> world \<Rightarrow> world" where
  "assigned d w =
     w\<lparr>state := (state w)
        \<lparr>currentSpeaker := or_else (opt_prop d (lit ''currentSpeaker'')) (currentSpeaker (state w)),
         mode := or_else (opt_prop d (lit ''mode'')) (mode (state w))\<rparr>\<rparr>"

text \<open>The two fixed strings \<open>sendToLyra\<close> speaks.\<close>

definition connection_issue :: jsstring where
  "connection_issue = lit ''Sorry, I am facing a connection issue right now. Please try again.''"

definition apology :: jsstring where
  "apology = lit ''Sorry, I could not generate a response right now.''"

text \<open>
  What a call of \<open>speak\<close> that submits the text \<open>s\<close> adds to the platform calls: a
  cancel and one utterance when speech synthesis exists, nothing otherwise.
\<close>

definition spoken :: "jsstring \<Rightarrow> world \<Rightarrow> effect list" where
  "spoken s w =
     (if hasSpeechSynthesis w
      then [SynthCancel,
            SynthSpeak \<lparr>utt_text = s, utt_lang = LANG, utt_rate = 1, utt_pitch = 1.02,
                        utt_voice = getPreferredVoice (voices w)\<rparr>]
      else [])"

text \<open>The four values of the status enumeration.\<close>

definition status_values :: "jsstring set" where
  "status_values = {lit ''Idle'', lit ''Listening'', lit ''Thinking'', lit ''Error''}"

abbreviation (input) status_ok :: "world \<Rightarrow> bool" where
  "status_ok w \<equiv> status (state w) \<in> status_values"

text \<open>
  The UI shows the state: the three texts are the three fields as strings, and the button
  carries the class of the current status and neither of the other two.
\<close>

definition projection :: "world \<Rightarrow> bool" where
  "projection w \<longleftrightarrow>
     statusText (ui w) = status (state w) \<and>
     to_DOMString (currentSpeaker (state w)) = Inr (speakerText (ui w)) \<and>
     to_DOMString (mode (state w)) = Inr (modeText (ui w)) \<and>
     (lit ''listening'' \<in> set (micButton (ui w))) = (status (state w) = lit ''Listening'') \<and>
     (lit ''thinking'' \<in> set (micButton (ui w))) = (status (state w) = lit ''Thinking'') \<and>
     (lit ''error'' \<in> set (micButton (ui w))) = (status (state w) = lit ''Error'')"

text \<open>
  The sanitizer's string methods before the final \<open>slice\<close>, and the shape of what they
  return: every whitespace character is a space and is followed by a character that is not
  whitespace.
\<close>

definition pipeline :: "jsstring \<Rightarrow> jsstring" where
  "pipeline s = trim (collapse_ws (replace_unsafe s))"

fun ws_normal :: "jsstring \<Rightarrow> bool" where
  "ws_normal [] = True"
| "ws_normal [c] = (is_ws c \<longrightarrow> c = 0x20)"
| "ws_normal (c # d # cs) = ((is_ws c \<longrightarrow> c = 0x20 \<and> \<not> is_ws d) \<and> ws_normal (d # cs))"

text \<open>
  Already clean text: none of the replaced characters, no whitespace at either end, no
  two whitespace characters in a row.
\<close>

fun consecutive_ws :: "jsstring \<Rightarrow> bool" where
  "consecutive_ws (c # d # cs) = (is_ws c \<and> is_ws d \<or> consecutive_ws (d # cs))"
| "consecutive_ws _ = False"

definition already_clean :: "jsstring \<Rightarrow> bool" where
  "already_clean x \<longleftrightarrow>
     list_all (\<lambda>c. \<not> is_unsafe c) x \<and>
     (x = [] \<or> \<not> is_ws (hd x) \<and> \<not> is_ws (last x)) \<and>
     \<not> consecutive_ws x"

text \<open>A page to run the program on: two voices, speech synthesis and recognition present.\<close>

definition example_voices :: "voice list" where
  "example_voices =
     [\<lparr>lang = Some (lit ''en-US''), name = Some (lit ''David'')\<rparr>,
      \<lparr>lang = Some (lit ''en-IN''), name = Some (lit ''Heera'')\<rparr>]"

definition example_page :: world where
  "example_page = boot True True example_voices [lit ''mic''] []"

text \<open>
  The same page after two recognition results were sent and the first reply came back ok
  with a \<open>currentSpeaker\<close> that is an object with an own \<open>toString\<close> property: one
  request is still pending.
\<close>

definition hello_results :: jsval where
  "hello_results = JArr [JArr [JObj [(lit ''transcript'', JStr (lit ''  hello   world!! ''))]]]"

definition odd_object :: jsval where
  "odd_object = JObj [(lit ''toString'', JNum True (lit ''1''))]"

definition odd_page :: world where
  "odd_page =
     run [RecResult hello_results, RecResult hello_results,
          FetchSettled 0
            (Responded True (JsonParsed (JObj [(lit ''currentSpeaker'', odd_object)])))]
       example_page"

text \<open>A property of the world that a piece of code keeps, whether it returns or throws.\<close>

definition keeps :: "(world \<Rightarrow> bool) \<Rightarrow> action \<Rightarrow> bool" where
  "keeps P a \<longleftrightarrow> (\<forall>w. P w \<longrightarrow> P (snd (a w)))"

section \<open>String literals\<close>

lemma of_char_nat_less: "(of_char c :: nat) < 65536"
proof -
  have "(of_char c :: nat) \<in> range of_char" by simp
  then have "(of_char c :: nat) < 256" unfolding range_nat_of_char by simp
  then show ?thesis by linarith
qed

lemma of_char_word_inj: "(of_char c :: jschar) = of_char d \<longleftrightarrow> c = d"
proof
  assume "(of_char c :: jschar) = of_char d"
  then have "unat (of_nat (of_char c) :: jschar) = unat (of_nat (of_char d) :: jschar)"
    by (simp add: of_nat_of_char)
  then have "(of_char c :: nat) = of_char d"
    using of_char_nat_less [of c] of_char_nat_less [of d] by (simp add: unat_of_nat)
  then show "c = d" by (simp add: of_char_eq_iff)
qed simp

lemma lit_eq_iff [simp]: "lit a = lit b \<longleftrightarrow> a = b"
proof -
  have "inj (of_char :: char \<Rightarrow> jschar)"
    by (rule injI) (simp add: of_char_word_inj)
  then show ?thesis
    unfolding lit_def by (simp add: inj_map_eq_map)
qed

lemma lit_eq_Nil [simp]: "lit a = [] \<longleftrightarrow> a = []"
  by (simp add: lit_def)

section \<open>Properties of the sanitizer\<close>

lemma is_ws_space: "is_ws 0x20"
  by (simp add: is_ws_def)

lemma not_unsafe_space: "\<not> is_unsafe 0x20"
  by (simp add: is_unsafe_def)

lemma set_collapse_ws: "set (collapse_ws s) \<subseteq> insert 0x20 (set s)"
proof (induction s rule: collapse_ws.induct)
  case 1
  show ?case by simp
next
  case (2 c cs)
  show ?case
  proof (cases "is_ws c")
    case True
    have "set (dropWhile is_ws cs) \<subseteq> set cs"
      by (auto dest: set_dropWhileD)
    with 2(1) [OF True] True show ?thesis by auto
  next
    case False
    with 2(2) [OF False] show ?thesis by auto
  qed
qed

lemma length_collapse_ws: "length (collapse_ws s) \<le> length s"
proof (induction s rule: collapse_ws.induct)
  case 1
  show ?case by simp
next
  case (2 c cs)
  show ?case
  proof (cases "is_ws c")
    case True
    have "length (dropWhile is_ws cs) \<le> length cs"
      by (rule length_dropWhile_le)
    with 2(1) [OF True] True show ?thesis by simp
  next
    case False
    with 2(2) [OF False] show ?thesis by simp
  qed
qed

lemma set_trim: "set (trim s) \<subseteq> set s"
  by (auto simp: trim_def dest!: set_dropWhileD)

lemma length_trim: "length (trim s) \<le> length s"
proof -
  have "length (trim s) \<le> length (dropWhile is_ws s)"
    unfolding trim_def using length_dropWhile_le [of is_ws "rev (dropWhile is_ws s)"] by simp
  also have "\<dots> \<le> length s" by (rule length_dropWhile_le)
  finally show ?thesis .
qed

lemma replace_unsafe_safe: "c \<in> set (replace_unsafe s) \<Longrightarrow> \<not> is_unsafe c"
  by (auto simp: replace_unsafe_def not_unsafe_space split: if_splits)

lemma length_replace_unsafe: "length (replace_unsafe s) = length s"
  by (simp add: replace_unsafe_def)

lemma collapse_ws_head:
  "\<not> is_ws c \<Longrightarrow> collapse_ws (c # cs) = c # collapse_ws cs"
  by simp

lemma dropWhile_head: "dropWhile P s = [] \<or> \<not> P (hd (dropWhile P s))"
  using hd_dropWhile by blast

lemma collapse_ws_start:
  "s = [] \<or> \<not> is_ws (hd s) \<Longrightarrow> collapse_ws s = [] \<or> \<not> is_ws (hd (collapse_ws s))"
  by (cases s) auto

lemma ws_normal_Cons:
  "ws_normal (c # s) \<longleftrightarrow> (is_ws c \<longrightarrow> c = 0x20 \<and> (s = [] \<or> \<not> is_ws (hd s))) \<and> ws_normal s"
  by (cases s) auto

lemma ws_normal_collapse: "ws_normal (collapse_ws s)"
proof (induction s rule: collapse_ws.induct)
  case 1
  show ?case by simp
next
  case (2 c cs)
  show ?case
  proof (cases "is_ws c")
    case True
    have "collapse_ws (dropWhile is_ws cs) = [] \<or> \<not> is_ws (hd (collapse_ws (dropWhile is_ws cs)))"
      by (rule collapse_ws_start) (rule dropWhile_head)
    with 2(1) [OF True] True show ?thesis
      by (simp add: ws_normal_Cons)
  next
    case False
    with 2(2) [OF False] show ?thesis
      by (simp add: ws_normal_Cons)
  qed
qed

lemma collapse_ws_fixed: "ws_normal s \<Longrightarrow> collapse_ws s = s"
proof (induction s rule: ws_normal.induct)
  case 1
  show ?case by simp
next
  case (2 c)
  then show ?case by simp
next
  case (3 c d cs)
  then show ?case by auto
qed

lemma ws_normal_drop: "ws_normal s \<Longrightarrow> ws_normal (drop n s)"
proof (induction n arbitrary: s)
  case 0
  then show ?case by simp
next
  case (Suc n)
  then show ?case by (cases s) (auto simp: ws_normal_Cons)
qed

lemma ws_normal_take: "ws_normal s \<Longrightarrow> ws_normal (take n s)"
proof (induction s arbitrary: n rule: ws_normal.induct)
  case 1
  show ?case by simp
next
  case (2 c)
  then show ?case by (cases n) auto
next
  case (3 c d cs)
  show ?case
  proof (cases n)
    case 0
    then show ?thesis by simp
  next
    case (Suc m)
    from 3 have "ws_normal (take m (d # cs))" by simp
    with 3(2) Suc show ?thesis
      by (cases m) (auto simp: ws_normal_Cons)
  qed
qed

lemma trim_as_take_drop:
  "\<exists>m n. trim s = take m (drop n s)"
proof -
  let ?t = "dropWhile is_ws s"
  have "trim s = rev (drop (length (takeWhile is_ws (rev ?t))) (rev ?t))"
    by (simp add: trim_def dropWhile_eq_drop)
  also have "\<dots> = take (length ?t - length (takeWhile is_ws (rev ?t))) ?t"
    by (simp add: rev_drop)
  also have "?t = drop (length (takeWhile is_ws s)) s"
    by (rule dropWhile_eq_drop)
  finally show ?thesis by blast
qed

lemma ws_normal_trim: "ws_normal s \<Longrightarrow> ws_normal (trim s)"
proof -
  assume n: "ws_normal s"
  obtain m k where "trim s = take m (drop k s)"
    using trim_as_take_drop [of s] by blast
  moreover from n have "ws_normal (take m (drop k s))"
    by (intro ws_normal_take ws_normal_drop)
  ultimately show ?thesis by simp
qed

lemma trim_ends:
  "trim s = [] \<or> (\<not> is_ws (hd (trim s)) \<and> \<not> is_ws (last (trim s)))"
proof (cases "trim s = []")
  case True
  then show ?thesis by simp
next
  case False
  let ?t = "dropWhile is_ws s"
  let ?r = "dropWhile is_ws (rev ?t)"
  from False have r: "?r \<noteq> []" by (simp add: trim_def)
  then have "\<not> is_ws (hd ?r)" by (rule hd_dropWhile)
  with r have l: "\<not> is_ws (last (trim s))"
    by (simp add: trim_def last_rev)
  from r have t: "?t \<noteq> []" by (cases "?t = []") simp_all
  then have ht: "\<not> is_ws (hd ?t)" by (rule hd_dropWhile)
  obtain m where m: "trim s = take m ?t"
    using dropWhile_eq_drop [of is_ws "rev ?t"] by (auto simp: trim_def rev_drop)
  with False have "m \<noteq> 0" by auto
  with m t have "hd (trim s) = hd ?t" by (cases ?t; cases m) auto
  with ht l show ?thesis by simp
qed

lemma trim_fixed:
  assumes "s = [] \<or> (\<not> is_ws (hd s) \<and> \<not> is_ws (last s))"
  shows "trim s = s"
proof (cases s)
  case Nil
  then show ?thesis by (simp add: trim_def)
next
  case (Cons c cs)
  with assms have "\<not> is_ws c" and l: "\<not> is_ws (last s)" by auto
  then have d: "dropWhile is_ws s = s" using Cons by simp
  from Cons have "rev s \<noteq> []" by simp
  moreover from l Cons have "\<not> is_ws (hd (rev s))" by (simp only: hd_rev list.simps not_False_eq_True)
  ultimately have "dropWhile is_ws (rev s) = rev s"
    by (cases "rev s") auto
  with d show ?thesis by (simp add: trim_def)
qed

lemma trim_idem: "trim (trim s) = trim s"
  by (rule trim_fixed) (rule trim_ends)

lemma replace_unsafe_fixed: "(\<forall>c \<in> set s. \<not> is_unsafe c) \<Longrightarrow> replace_unsafe s = s"
  by (simp add: replace_unsafe_def map_idI)

lemma pipeline_safe: "c \<in> set (pipeline s) \<Longrightarrow> \<not> is_unsafe c"
  using set_trim [of "collapse_ws (replace_unsafe s)"] set_collapse_ws [of "replace_unsafe s"]
    not_unsafe_space replace_unsafe_safe [of c s]
  by (auto simp: pipeline_def)

lemma pipeline_idem: "pipeline (pipeline s) = pipeline s"
proof -
  have "replace_unsafe (pipeline s) = pipeline s"
    by (rule replace_unsafe_fixed) (auto dest: pipeline_safe)
  moreover have "collapse_ws (pipeline s) = pipeline s"
    unfolding pipeline_def by (intro collapse_ws_fixed ws_normal_trim ws_normal_collapse)
  moreover have "trim (pipeline s) = pipeline s"
    unfolding pipeline_def by (rule trim_idem)
  ultimately show ?thesis by (simp add: pipeline_def)
qed

lemma length_pipeline: "length (pipeline s) \<le> length s"
  using length_trim [of "collapse_ws (replace_unsafe s)"] length_collapse_ws [of "replace_unsafe s"]
  by (simp add: pipeline_def length_replace_unsafe)


lemma sanitize_eq:
  "sanitizeSpokenInput v =
     (case to_String (or_else v (JStr [])) of
        Inl e \<Rightarrow> Inl e
      | Inr s \<Rightarrow> Inr (slice0 600 (pipeline s)))"
  unfolding sanitizeSpokenInput_def pipeline_def ..

lemma sanitize_JStr: "sanitizeSpokenInput (JStr s) = Inr (take 600 (pipeline s))"
  by (cases "s = []") (simp_all add: sanitize_eq slice0_def or_else_def)

lemma sanitize_falsy: "\<not> truthy v \<Longrightarrow> sanitizeSpokenInput v = Inr []"
  by (simp add: sanitize_eq slice0_def pipeline_def trim_def replace_unsafe_def or_else_def)


text \<open>ToString throws exactly on the values with an own \<open>toString\<close> inside.\<close>

lemma join_comma_throws:
  "join_comma rs = Inl e \<Longrightarrow> Inl e \<in> set rs"
  by (induction rs rule: join_comma.induct) (auto split: sum.splits)

lemma join_comma_returns:
  "\<forall>r \<in> set rs. \<exists>s. r = Inr s \<Longrightarrow> \<exists>s. join_comma rs = Inr s"
  by (induction rs rule: join_comma.induct) (auto split: sum.splits)

lemma join_comma_returned:
  "join_comma rs = Inr s \<Longrightarrow> \<forall>r \<in> set rs. \<exists>t. r = Inr t"
proof (induction rs arbitrary: s rule: join_comma.induct)
  case 1
  show ?case by simp
next
  case (2 r)
  then show ?case by simp
next
  case (3 r v va)
  from 3(2) obtain a b where "r = Inr a" and "join_comma (v # va) = Inr b"
    by (auto split: sum.splits)
  with 3(1) [of a b] show ?case by simp
qed

lemma to_String_throws:
  "to_String v = Inl e \<longleftrightarrow> unconvertible v \<and> e = TypeError"
proof (induction v arbitrary: e rule: to_String.induct)
  case (6 vs)
  define f where "f = (\<lambda>v. if v = JUndefined \<or> v = JNull then Inr [] else to_String v)"
  have ts: "to_String (JArr vs) = join_comma (map f vs)"
    by (simp add: f_def)
  have elem: "f v = Inl x \<longleftrightarrow> unconvertible v \<and> x = TypeError" if v: "v \<in> set vs" for v x
  proof (cases "v = JUndefined \<or> v = JNull")
    case True
    then have "f v = Inr []" by (simp add: f_def)
    moreover from True have "\<not> unconvertible v" by auto
    ultimately show ?thesis by simp
  next
    case False
    then have "f v = to_String v" by (simp add: f_def)
    with 6 [OF v False, of x] show ?thesis by simp
  qed
  have un: "unconvertible (JArr vs) \<longleftrightarrow> (\<exists>v \<in> set vs. unconvertible v)"
    by (simp add: list_ex_iff)
  show ?case
  proof
    assume "to_String (JArr vs) = Inl e"
    with ts have "join_comma (map f vs) = Inl e" by simp
    then have "Inl e \<in> set (map f vs)" by (rule join_comma_throws)
    then have "Inl e \<in> f ` set vs" by simp
    then obtain v where v: "v \<in> set vs" and fv: "Inl e = f v" by (rule imageE)
    from elem [OF v, of e] fv [symmetric] have "unconvertible v \<and> e = TypeError"
      by (rule iffD1)
    with v have "(\<exists>v \<in> set vs. unconvertible v) \<and> e = TypeError" by (intro conjI bexI) simp_all
    with un show "unconvertible (JArr vs) \<and> e = TypeError" by simp
  next
    assume a: "unconvertible (JArr vs) \<and> e = TypeError"
    with un have "\<exists>v \<in> set vs. unconvertible v" by simp
    then obtain v where v: "v \<in> set vs" and u: "unconvertible v" by (rule bexE)
    from u have "unconvertible v \<and> TypeError = TypeError" by simp
    with elem [OF v, of TypeError] have fv: "f v = Inl TypeError" by (rule iffD2)
    have "\<not> (\<exists>s. join_comma (map f vs) = Inr s)"
    proof
      assume "\<exists>s. join_comma (map f vs) = Inr s"
      then obtain s where "join_comma (map f vs) = Inr s" by (rule exE)
      then have r: "\<forall>r \<in> set (map f vs). \<exists>t. r = Inr t"
        by (rule join_comma_returned)
      from v have "f v \<in> set (map f vs)" by simp
      with r have "\<exists>t. f v = Inr t" by (rule bspec)
      with fv show False by simp
    qed
    then obtain x where x: "join_comma (map f vs) = Inl x"
      by (cases "join_comma (map f vs)") simp_all
    then have "Inl x \<in> set (map f vs)" by (rule join_comma_throws)
    then have "Inl x \<in> f ` set vs" by simp
    then obtain u where u: "u \<in> set vs" and fu: "Inl x = f u" by (rule imageE)
    from elem [OF u, of x] fu [symmetric] have "unconvertible u \<and> x = TypeError"
      by (rule iffD1)
    with x ts a show "to_String (JArr vs) = Inl e" by simp
  qed
next
  case (7 kvs)
  show ?case by auto
qed simp_all

lemma to_String_returns: "\<not> unconvertible v \<Longrightarrow> \<exists>s. to_String v = Inr s"
  using to_String_throws(1) [of v] by (cases "to_String v") auto

lemma to_DOMString_throws:
  "to_DOMString v = Inl e \<longleftrightarrow> unconvertible v \<and> e = TypeError"
  by (cases "v = JUndefined \<or> v = JNull")
     (auto simp: to_DOMString_def to_String_throws simp del: to_String.simps split: jsval.splits)

lemma to_DOMString_returns: "\<not> unconvertible v \<Longrightarrow> \<exists>s. to_DOMString v = Inr s"
  using to_DOMString_throws [of v] by (cases "to_DOMString v") auto



lemma sanitize_idem_short:
  assumes "length s \<le> 600"
  shows "sanitizeSpokenInput (JStr s) = Inr (pipeline s)"
    and "sanitizeSpokenInput (JStr (pipeline s)) = Inr (pipeline s)"
proof -
  from assms length_pipeline [of s] have l: "length (pipeline s) \<le> 600" by simp
  then show "sanitizeSpokenInput (JStr s) = Inr (pipeline s)"
    by (simp add: sanitize_JStr)
  from l show "sanitizeSpokenInput (JStr (pipeline s)) = Inr (pipeline s)"
    by (simp add: sanitize_JStr pipeline_idem)
qed

section \<open>Claims about the sanitizer\<close>




text \<open>
  Claim C8. For every string \<open>x\<close> that is already clean (none of the replaced
  characters, no whitespace at either end, no two whitespace characters in a row) and has
  at most 600 code units, the sanitizer returns a string on \<open>x\<close> and returns that same
  string on it again: sanitizing the sanitized text gives the sanitized text. (Only the
  bound on the length is used: see \<open>sanitize_idem_short\<close>.)
\<close>

theorem sanitize_clean_idempotent:
  assumes "already_clean x" and "length x \<le> 600"
  shows "\<exists>y. sanitizeSpokenInput (JStr x) = Inr y \<and> sanitizeSpokenInput (JStr y) = Inr y"
  using sanitize_idem_short [OF assms(2)] by simp

theorem sanitize_clean_idempotent_witness:
  "already_clean (lit ''hello world!!'')
   \<and> length (lit ''hello world!!'') \<le> 600
   \<and> (\<exists>y. sanitizeSpokenInput (JStr (lit ''hello world!!'')) = Inr y
          \<and> sanitizeSpokenInput (JStr y) = Inr y)
   \<and> sanitizeSpokenInput (JStr (lit ''hello world!!'')) = Inr (lit ''hello world!!'')"
proof -
  have c: "already_clean (lit ''hello world!!'')" by code_simp
  have l: "length (lit ''hello world!!'') \<le> 600" by (simp add: lit_def)
  have e: "sanitizeSpokenInput (JStr (lit ''hello world!!'')) = Inr (lit ''hello world!!'')"
    by code_simp
  from sanitize_clean_idempotent [OF c l] c l e show ?thesis by simp
qed

section \<open>What each operation changes\<close>

lemma keepsI: "(\<And>w. P w \<Longrightarrow> P (snd (a w))) \<Longrightarrow> keeps P a"
  by (simp add: keeps_def)

lemma keepsD: "keeps P a \<Longrightarrow> P w \<Longrightarrow> P (snd (a w))"
  by (simp add: keeps_def)

lemma keeps_stmt: "(\<And>w. P w \<Longrightarrow> P (f w)) \<Longrightarrow> keeps P (stmt f)"
  by (simp add: keeps_def stmt_def)

lemma keeps_block: "list_all (keeps P) as \<Longrightarrow> keeps P (block as)"
proof (induction as)
  case Nil
  show ?case by (simp add: keeps_def)
next
  case (Cons a as)
  then have a: "keeps P a" and as: "keeps P (block as)" by simp_all
  show ?case
  proof (rule keepsI)
    fix w assume w: "P w"
    obtain r w' where r: "a w = (r, w')" by (cases "a w")
    with keepsD [OF a w] have w': "P w'" by simp
    show "P (snd (block (a # as) w))"
    proof (cases r)
      case None
      with r keepsD [OF as w'] show ?thesis by simp
    next
      case (Some e)
      with r w' show ?thesis by simp
    qed
  qed
qed

lemma to_DOMString_JStr [simp]: "to_DOMString (JStr s) = Inr s"
  by (simp add: to_DOMString_def)

lemma class_names_distinct:
  "lit ''listening'' \<noteq> lit ''thinking''"
  "lit ''listening'' \<noteq> lit ''error''"
  "lit ''thinking'' \<noteq> lit ''error''"
  by simp_all

lemma update_classes_frame [simp]:
  "state (update_classes w) = state w"
  "recognition (update_classes w) = recognition w"
  "hasSpeechRecognition (update_classes w) = hasSpeechRecognition w"
  "hasSpeechSynthesis (update_classes w) = hasSpeechSynthesis w"
  "voices (update_classes w) = voices w"
  "effects (update_classes w) = effects w"
  "timers (update_classes w) = timers w"
  "requests (update_classes w) = requests w"
  "statusText (ui (update_classes w)) = statusText (ui w)"
  "speakerText (ui (update_classes w)) = speakerText (ui w)"
  "modeText (ui (update_classes w)) = modeText (ui w)"
  by (simp_all add: update_classes_def Let_def)

lemma update_classes_status:
  "lit ''listening'' \<in> set (micButton (ui (update_classes w))) \<longleftrightarrow> status (state w) = lit ''Listening''"
  "lit ''thinking'' \<in> set (micButton (ui (update_classes w))) \<longleftrightarrow> status (state w) = lit ''Thinking''"
  "lit ''error'' \<in> set (micButton (ui (update_classes w))) \<longleftrightarrow> status (state w) = lit ''Error''"
  by (auto simp: update_classes_def Let_def classList_remove_def classList_add_def)

text \<open>
  \<open>updateUI\<close> by cases: it returns when both fields convert, and otherwise throws at
  the first that does not, with the earlier texts assigned and the class list untouched.
\<close>

lemma updateUI_returns:
  assumes "to_DOMString (currentSpeaker (state w)) = Inr a"
    and "to_DOMString (mode (state w)) = Inr b"
  shows "updateUI w =
     (None, update_classes
        (w\<lparr>ui := (ui w)\<lparr>statusText := status (state w), speakerText := a, modeText := b\<rparr>\<rparr>))"
  using assms
  by (simp add: updateUI_def set_statusText_def set_speakerText_def set_modeText_def stmt_def)

lemma updateUI_throws_speaker:
  assumes "to_DOMString (currentSpeaker (state w)) = Inl e"
  shows "updateUI w = (Some e, w\<lparr>ui := (ui w)\<lparr>statusText := status (state w)\<rparr>\<rparr>)"
  using assms
  by (simp add: updateUI_def set_statusText_def set_speakerText_def set_modeText_def stmt_def)

lemma updateUI_throws_mode:
  assumes "to_DOMString (currentSpeaker (state w)) = Inr a"
    and "to_DOMString (mode (state w)) = Inl e"
  shows "updateUI w =
     (Some e, w\<lparr>ui := (ui w)\<lparr>statusText := status (state w), speakerText := a\<rparr>\<rparr>)"
  using assms
  by (simp add: updateUI_def set_statusText_def set_speakerText_def set_modeText_def stmt_def)

lemma updateUI_cases:
  obtains (returns) a b where "to_DOMString (currentSpeaker (state w)) = Inr a"
      "to_DOMString (mode (state w)) = Inr b" "displayable w"
  | (speaker) "to_DOMString (currentSpeaker (state w)) = Inl TypeError" "\<not> displayable w"
  | (mode) a where "to_DOMString (currentSpeaker (state w)) = Inr a"
      "to_DOMString (mode (state w)) = Inl TypeError" "\<not> displayable w"
proof (cases "to_DOMString (currentSpeaker (state w))")
  case (Inl e)
  then have "unconvertible (currentSpeaker (state w))" "e = TypeError"
    by (simp_all add: to_DOMString_throws)
  with Inl speaker show ?thesis by (simp add: displayable_def)
next
  case a: (Inr a)
  then have ns: "\<not> unconvertible (currentSpeaker (state w))"
    using to_DOMString_throws [of "currentSpeaker (state w)" TypeError] by simp
  show ?thesis
  proof (cases "to_DOMString (mode (state w))")
    case (Inl e)
    then have "unconvertible (mode (state w))" "e = TypeError"
      by (simp_all add: to_DOMString_throws)
    with Inl a mode show ?thesis by (simp add: displayable_def)
  next
    case (Inr b)
    then have "\<not> unconvertible (mode (state w))"
      using to_DOMString_throws [of "mode (state w)" TypeError] by simp
    with ns a Inr returns show ?thesis by (simp add: displayable_def)
  qed
qed

lemma updateUI_frame [simp]:
  "state (snd (updateUI w)) = state w"
  "recognition (snd (updateUI w)) = recognition w"
  "hasSpeechRecognition (snd (updateUI w)) = hasSpeechRecognition w"
  "hasSpeechSynthesis (snd (updateUI w)) = hasSpeechSynthesis w"
  "voices (snd (updateUI w)) = voices w"
  "effects (snd (updateUI w)) = effects w"
  "timers (snd (updateUI w)) = timers w"
  "requests (snd (updateUI w)) = requests w"
  "statusText (ui (snd (updateUI w))) = status (state w)"
  by (cases w rule: updateUI_cases;
      simp add: updateUI_returns updateUI_throws_speaker updateUI_throws_mode)+

lemma updateUI_fst: "fst (updateUI w) = (if displayable w then None else Some TypeError)"
  by (cases w rule: updateUI_cases)
     (simp_all add: updateUI_returns updateUI_throws_speaker updateUI_throws_mode)

lemma updateUI_projection: "displayable w \<Longrightarrow> projection (snd (updateUI w))"
  by (cases w rule: updateUI_cases)
     (simp_all add: updateUI_returns projection_def update_classes_status)

lemma updateUI_threw_classes:
  "\<not> displayable w \<Longrightarrow> micButton (ui (snd (updateUI w))) = micButton (ui w)"
  by (cases w rule: updateUI_cases)
     (simp_all add: updateUI_throws_speaker updateUI_throws_mode)

lemma updateUI_reads:
  assumes "state w1 = state w2" and "ui w1 = ui w2"
  shows "fst (updateUI w1) = fst (updateUI w2)"
    and "ui (snd (updateUI w1)) = ui (snd (updateUI w2))"
proof -
  have d: "displayable w1 = displayable w2" using assms(1) by (simp add: displayable_def)
  then show "fst (updateUI w1) = fst (updateUI w2)" by (simp add: updateUI_fst)
  have u: "update_classes (w1\<lparr>ui := x\<rparr>) = (update_classes (w2\<lparr>ui := x\<rparr>))\<lparr>state := state w1,
      recognition := recognition w1, hasSpeechRecognition := hasSpeechRecognition w1,
      hasSpeechSynthesis := hasSpeechSynthesis w1, voices := voices w1, effects := effects w1,
      timers := timers w1, requests := requests w1\<rparr>" for x
    using assms(1) by (simp add: update_classes_def Let_def)
  show "ui (snd (updateUI w1)) = ui (snd (updateUI w2))"
    using assms d
    by (cases w1 rule: updateUI_cases)
       (simp_all add: updateUI_returns updateUI_throws_speaker updateUI_throws_mode u)
qed

lemma setStatus_eq: "setStatus v w = updateUI (w\<lparr>state := (state w)\<lparr>status := v\<rparr>\<rparr>)"
  by (cases "updateUI (w\<lparr>state := (state w)\<lparr>status := v\<rparr>\<rparr>)")
     (auto simp: setStatus_def stmt_def split: option.splits)

lemma displayable_status [simp]:
  "displayable (w\<lparr>state := (state w)\<lparr>status := v\<rparr>\<rparr>) = displayable w"
  by (simp add: displayable_def)

lemma setStatus_frame [simp]:
  "state (snd (setStatus v w)) = (state w)\<lparr>status := v\<rparr>"
  "recognition (snd (setStatus v w)) = recognition w"
  "hasSpeechRecognition (snd (setStatus v w)) = hasSpeechRecognition w"
  "hasSpeechSynthesis (snd (setStatus v w)) = hasSpeechSynthesis w"
  "voices (snd (setStatus v w)) = voices w"
  "effects (snd (setStatus v w)) = effects w"
  "timers (snd (setStatus v w)) = timers w"
  "requests (snd (setStatus v w)) = requests w"
  "statusText (ui (snd (setStatus v w))) = v"
  by (simp_all add: setStatus_eq)

lemma setStatus_fst: "fst (setStatus v w) = (if displayable w then None else Some TypeError)"
  by (simp add: setStatus_eq updateUI_fst)

lemma setStatus_projection: "displayable w \<Longrightarrow> projection (snd (setStatus v w))"
  by (simp add: setStatus_eq updateUI_projection)

lemma displayable_cong:
  "currentSpeaker (state w') = currentSpeaker (state w) \<Longrightarrow> mode (state w') = mode (state w)
   \<Longrightarrow> displayable w' = displayable w"
  by (simp add: displayable_def)

lemma displayable_setStatus [simp]: "displayable (snd (setStatus v w)) = displayable w"
  by (rule displayable_cong) simp_all

lemma speak_frame [simp]:
  "state (snd (speak t w)) = state w"
  "ui (snd (speak t w)) = ui w"
  "recognition (snd (speak t w)) = recognition w"
  "hasSpeechRecognition (snd (speak t w)) = hasSpeechRecognition w"
  "hasSpeechSynthesis (snd (speak t w)) = hasSpeechSynthesis w"
  "voices (snd (speak t w)) = voices w"
  "timers (snd (speak t w)) = timers w"
  "requests (snd (speak t w)) = requests w"
  by (simp_all add: speak_def Let_def split: sum.splits)

lemma speak_returns:
  assumes "to_String t = Inr s" and "truthy t"
  shows "speak t w = (None, w\<lparr>effects := effects w @ spoken s w\<rparr>)"
  using assms by (simp add: speak_def spoken_def Let_def)

lemma speak_throws:
  assumes "to_String t = Inl e" and "truthy t"
  shows "speak t w =
     (if hasSpeechSynthesis w then (Some e, w\<lparr>effects := effects w @ [SynthCancel]\<rparr>)
      else (None, w))"
  using assms by (simp add: speak_def Let_def)

lemma speak_lit:
  "s \<noteq> [] \<Longrightarrow> speak (JStr (lit s)) w = (None, w\<lparr>effects := effects w @ spoken (lit s) w\<rparr>)"
  by (rule speak_returns) simp_all

lemma displayable_speak [simp]: "displayable (snd (speak t w)) = displayable w"
  by (rule displayable_cong) simp_all

lemma get_prop_throws: "get_prop d k = Inl e \<longleftrightarrow> (d = JUndefined \<or> d = JNull) \<and> e = TypeError"
  by (cases d) auto

lemma get_prop_total:
  "d \<noteq> JUndefined \<Longrightarrow> d \<noteq> JNull \<Longrightarrow> get_prop d k = Inr (opt_prop d k)"
  by (cases d) (auto simp: opt_prop_def)

lemma action_pair: "fst (a w) = r \<Longrightarrow> a w = (r, snd (a w))"
  by (cases "a w") simp

lemma setStatus_returns: "displayable w \<Longrightarrow> setStatus v w = (None, snd (setStatus v w))"
  by (rule action_pair) (simp add: setStatus_fst)

lemma setStatus_throws: "\<not> displayable w \<Longrightarrow> setStatus v w = (Some TypeError, snd (setStatus v w))"
  by (rule action_pair) (simp add: setStatus_fst)

lemma updateUI_ok: "displayable w \<Longrightarrow> updateUI w = (None, snd (updateUI w))"
  by (rule action_pair) (simp add: updateUI_fst)

lemma updateUI_fails: "\<not> displayable w \<Longrightarrow> updateUI w = (Some TypeError, snd (updateUI w))"
  by (rule action_pair) (simp add: updateUI_fst)

lemma displayable_console_error [simp]: "displayable (console_error e w) = displayable w"
  by (simp add: displayable_def console_error_def)

lemma connection_issue_nonempty:
  "''Sorry, I am facing a connection issue right now. Please try again.'' \<noteq> []"
  by simp

text \<open>The \<open>catch\<close> block: in a displayable world it runs to its end.\<close>

lemma catch_block_returns:
  assumes "displayable w"
  shows "catch_block e w =
     (None,
      setTimeout SetStatusIdle 1200
        ((snd (setStatus (lit ''Error'') (console_error e w)))
           \<lparr>effects := effects w @ ConsoleError e # spoken connection_issue w\<rparr>))"
proof -
  define w1 where "w1 = snd (setStatus (lit ''Error'') (console_error e w))"
  from assms have "displayable (console_error e w)" by simp
  then have s: "setStatus (lit ''Error'') (console_error e w) = (None, w1)"
    unfolding w1_def by (rule setStatus_returns)
  have f: "effects w1 = effects w @ [ConsoleError e]" "hasSpeechSynthesis w1 = hasSpeechSynthesis w"
    "voices w1 = voices w"
    by (simp_all add: w1_def console_error_def)
  have "catch_block e w =
     (None, setTimeout SetStatusIdle 1200
        (w1\<lparr>effects := effects w @ ConsoleError e # spoken connection_issue w\<rparr>))"
    by (simp add: catch_block_def stmt_def s speak_lit [OF connection_issue_nonempty]
        connection_issue_def spoken_def f)
  then show ?thesis by (simp only: w1_def)
qed

text \<open>Otherwise its \<open>setStatus('Error')\<close> throws: nothing is spoken and no timer is set.\<close>

lemma catch_block_throws:
  assumes "\<not> displayable w"
  shows "catch_block e w = (Some TypeError, snd (setStatus (lit ''Error'') (console_error e w)))"
proof -
  define w1 where "w1 = snd (setStatus (lit ''Error'') (console_error e w))"
  from assms have "\<not> displayable (console_error e w)" by simp
  then have s: "setStatus (lit ''Error'') (console_error e w) = (Some TypeError, w1)"
    unfolding w1_def by (rule setStatus_throws)
  have "catch_block e w = (Some TypeError, w1)"
    by (simp add: catch_block_def stmt_def s)
  then show ?thesis by (simp only: w1_def)
qed

lemma catch_block_state [simp]:
  "state (snd (catch_block e w)) = (state w)\<lparr>status := lit ''Error''\<rparr>"
  "requests (snd (catch_block e w)) = requests w"
  "hasSpeechSynthesis (snd (catch_block e w)) = hasSpeechSynthesis w"
  "hasSpeechRecognition (snd (catch_block e w)) = hasSpeechRecognition w"
  "recognition (snd (catch_block e w)) = recognition w"
  "voices (snd (catch_block e w)) = voices w"
  "statusText (ui (snd (catch_block e w))) = lit ''Error''"
  by (cases "displayable w";
      simp add: catch_block_returns catch_block_throws setTimeout_def console_error_def)+

lemma step_timer_last:
  assumes "timers w' = ts @ [(ms, SetStatusIdle)]"
  shows "state (step (TimerFired (length ts)) w') = (state w')\<lparr>status := lit ''Idle''\<rparr>"
    and "timers (step (TimerFired (length ts)) w') = ts"
  using assms by (simp_all add: step_def drop_nth_def)

lemma try_block_early:
  assumes "throws_early out"
  shows "\<exists>e. try_block out w = (Some e, w)"
proof (cases out)
  case FetchRejected
  then show ?thesis by (simp add: try_block_def)
next
  case (Responded ok b)
  show ?thesis
  proof (cases b)
    case JsonRejected
    with Responded show ?thesis by (simp add: try_block_def)
  next
    case (JsonParsed d)
    show ?thesis
    proof (cases ok)
      case True
      with assms Responded JsonParsed have "d = JNull \<or> d = JUndefined"
        by (simp add: throws_early_def)
      with True Responded JsonParsed show ?thesis
        by (auto simp: try_block_def)
    next
      case False
      with Responded JsonParsed show ?thesis
        by (simp add: try_block_def split: sum.splits)
    qed
  qed
qed

lemma try_block_late:
  assumes "d \<noteq> JNull" and "d \<noteq> JUndefined"
  shows "try_block (Responded True (JsonParsed d)) w =
     (case updateUI (assigned d w) of
        (Some e, w3) \<Rightarrow> (Some e, w3)
      | (None, w3) \<Rightarrow>
         block [speak (or_else (opt_prop d (lit ''reply'')) (JStr apology)),
                setStatus (lit ''Idle'')] w3)"
proof -
  obtain r w3 where u: "updateUI (assigned d w) = (r, w3)"
    by (cases "updateUI (assigned d w)")
  show ?thesis
    unfolding u using assms u [unfolded assigned_def]
    by (cases r) (simp_all add: try_block_def get_prop_total apology_def Let_def del: block.simps)
qed

lemma throws_early_iff:
  "\<not> throws_early out \<longleftrightarrow> (\<exists>d. out = Responded True (JsonParsed d) \<and> d \<noteq> JNull \<and> d \<noteq> JUndefined)"
  by (cases out) (auto simp: throws_early_def split: json_result.splits)

section \<open>The continuation of sendToLyra\<close>

lemma settle_early:
  assumes "try_block out w = (Some e, w)"
  shows "sendToLyra_settle out w = catch_block e w"
  using assms by (simp add: sendToLyra_settle_def)

lemma assigned_frame [simp]:
  "ui (assigned d w) = ui w"
  "recognition (assigned d w) = recognition w"
  "hasSpeechRecognition (assigned d w) = hasSpeechRecognition w"
  "hasSpeechSynthesis (assigned d w) = hasSpeechSynthesis w"
  "voices (assigned d w) = voices w"
  "effects (assigned d w) = effects w"
  "timers (assigned d w) = timers w"
  "requests (assigned d w) = requests w"
  "status (state (assigned d w)) = status (state w)"
  "recognitionActive (state (assigned d w)) = recognitionActive (state w)"
  by (simp_all add: assigned_def)

lemma unconvertible_or_else:
  "\<not> unconvertible a \<Longrightarrow> \<not> unconvertible b \<Longrightarrow> \<not> unconvertible (or_else a b)"
  by (simp add: or_else_def)

lemma displayable_assigned:
  assumes "displayable w"
    and "\<not> unconvertible (opt_prop d (lit ''currentSpeaker''))"
    and "\<not> unconvertible (opt_prop d (lit ''mode''))"
  shows "displayable (assigned d w)"
  using assms by (simp add: displayable_def assigned_def unconvertible_or_else)

lemma truthy_or_else_apology: "truthy (or_else v (JStr apology))"
  by (simp add: or_else_def apology_def)

text \<open>The run of lines 95 to 100 when every conversion succeeds.\<close>

lemma settle_success:
  assumes "d \<noteq> JNull" and "d \<noteq> JUndefined"
    and "displayable (assigned d w)"
    and "to_String (or_else (opt_prop d (lit ''reply'')) (JStr apology)) = Inr s"
  shows "sendToLyra_settle (Responded True (JsonParsed d)) w =
     (None,
      snd (setStatus (lit ''Idle'')
        ((snd (updateUI (assigned d w)))\<lparr>effects := effects w @ spoken s w\<rparr>)))"
proof -
  define w3 where "w3 = snd (updateUI (assigned d w))"
  define w4 where "w4 = w3\<lparr>effects := effects w @ spoken s w\<rparr>"
  define w5 where "w5 = snd (setStatus (lit ''Idle'') w4)"
  from assms(3) have u: "updateUI (assigned d w) = (None, w3)"
    unfolding w3_def by (rule updateUI_ok)
  have f: "effects w3 = effects w" "hasSpeechSynthesis w3 = hasSpeechSynthesis w"
    "voices w3 = voices w"
    by (simp_all add: w3_def)
  have sp: "speak (or_else (opt_prop d (lit ''reply'')) (JStr apology)) w3 = (None, w4)"
    by (simp add: speak_returns [OF assms(4) truthy_or_else_apology] w4_def spoken_def f)
  have "displayable w4"
    using assms(3) by (simp add: w4_def w3_def displayable_def)
  then have st: "setStatus (lit ''Idle'') w4 = (None, w5)"
    unfolding w5_def by (rule setStatus_returns)
  have "sendToLyra_settle (Responded True (JsonParsed d)) w = (None, w5)"
    by (simp add: sendToLyra_settle_def try_block_late [OF assms(1,2)] u sp st)
  then show ?thesis by (simp only: w5_def w4_def w3_def)
qed

text \<open>What the continuation does depends on the body through three properties only.\<close>

lemma settle_body:
  assumes "opt_prop d (lit ''reply'') = opt_prop d' (lit ''reply'')"
    and "assigned d w = assigned d' w"
    and "d \<noteq> JNull" "d \<noteq> JUndefined" "d' \<noteq> JNull" "d' \<noteq> JUndefined"
  shows "sendToLyra_settle (Responded True (JsonParsed d)) w =
         sendToLyra_settle (Responded True (JsonParsed d')) w"
  unfolding sendToLyra_settle_def try_block_late [OF assms(3,4)] try_block_late [OF assms(5,6)]
    assms(1,2) ..

section \<open>The status invariant\<close>

lemma status_values_mem [simp]:
  "lit ''Idle'' \<in> status_values" "lit ''Listening'' \<in> status_values"
  "lit ''Thinking'' \<in> status_values" "lit ''Error'' \<in> status_values"
  by (simp_all add: status_values_def)

lemma keeps_setStatus: "v \<in> status_values \<Longrightarrow> keeps status_ok (setStatus v)"
  by (simp add: keeps_def)

lemma keeps_speak: "keeps status_ok (speak t)"
  by (simp add: keeps_def)

lemma keeps_updateUI: "keeps status_ok updateUI"
  by (simp add: keeps_def)

lemma keeps_catch_block: "keeps status_ok (catch_block e)"
  by (simp add: keeps_def)

lemma keeps_try_block: "keeps status_ok (try_block out)"
proof (rule keepsI)
  fix w assume w: "status_ok w"
  show "status_ok (snd (try_block out w))"
  proof (cases "throws_early out")
    case True
    from try_block_early [OF this, of w] w show ?thesis by auto
  next
    case False
    then obtain d where d: "out = Responded True (JsonParsed d)" "d \<noteq> JNull" "d \<noteq> JUndefined"
      unfolding throws_early_iff by auto
    obtain r w3 where u: "updateUI (assigned d w) = (r, w3)"
      by (cases "updateUI (assigned d w)")
    then have "w3 = snd (updateUI (assigned d w))" by simp
    with w have w3: "status_ok w3" by simp
    have k: "keeps status_ok
       (block [speak (or_else (opt_prop d (lit ''reply'')) (JStr apology)), setStatus (lit ''Idle'')])"
      by (rule keeps_block) (simp add: keeps_speak keeps_setStatus)
    show ?thesis
    proof (cases r)
      case None
      with keepsD [OF k w3] u show ?thesis
        unfolding d(1) try_block_late [OF d(2,3)] by simp
    next
      case (Some e)
      with w3 u show ?thesis
        unfolding d(1) try_block_late [OF d(2,3)] by simp
    qed
  qed
qed

lemma keeps_settle: "keeps status_ok (sendToLyra_settle out)"
proof (rule keepsI)
  fix w assume w: "status_ok w"
  obtain r w' where t: "try_block out w = (r, w')" by (cases "try_block out w")
  with keepsD [OF keeps_try_block w, of out] have "status_ok w'" by simp
  with t show "status_ok (snd (sendToLyra_settle out w))"
    by (cases r) (simp_all add: sendToLyra_settle_def)
qed

lemma request_status:
  "status (state (snd (sendToLyra_request u w))) \<in> {lit ''Thinking'', lit ''Error''}"
proof -
  obtain r w1 where s: "setStatus (lit ''Thinking'') w = (r, w1)"
    by (cases "setStatus (lit ''Thinking'') w")
  then have "w1 = snd (setStatus (lit ''Thinking'') w)" by simp
  then have w1: "status (state w1) = lit ''Thinking''" by simp
  show ?thesis
  proof (cases r)
    case None
    with s w1 show ?thesis
      by (cases "sanitizeSpokenInput u") (simp_all add: sendToLyra_request_def fetch_def)
  next
    case (Some e)
    with s w1 show ?thesis by (simp add: sendToLyra_request_def)
  qed
qed

lemma keeps_request: "keeps status_ok (sendToLyra_request u)"
  using request_status [of u] by (auto simp: keeps_def status_values_def)

lemma keeps_buildRecognition: "keeps status_ok buildRecognition"
proof (rule keepsI)
  fix w assume w: "status_ok w"
  let ?b = "block [setStatus (lit ''Error''),
     speak (JStr (lit ''Speech recognition is not supported in this browser. Please use Chrome.''))]"
  have k: "keeps status_ok ?b"
    by (rule keeps_block) (simp add: keeps_speak keeps_setStatus)
  obtain r w' where b: "?b w = (r, w')" by (cases "?b w")
  with keepsD [OF k w] have "status_ok w'" by simp
  with b w show "status_ok (snd (buildRecognition w))"
    by (cases r) (simp_all add: buildRecognition_def del: block.simps)
qed

lemma keeps_onclick: "keeps status_ok (onclick b)"
proof (rule keepsI)
  fix w assume w: "status_ok w"
  have k: "keeps status_ok (block [stmt (\<lambda>w. w\<lparr>effects := effects w @ [RecognitionStop]\<rparr>),
           setStatus (lit ''Idle'')])"
    by (rule keeps_block) (simp add: keeps_stmt keeps_setStatus)
  from w keepsD [OF keeps_buildRecognition w] keepsD [OF k w]
  show "status_ok (snd (onclick b w))"
    by (simp add: onclick_def del: block.simps)
qed

lemma keeps_onstart: "keeps status_ok onstart"
  unfolding onstart_def by (rule keeps_block) (simp add: keeps_stmt keeps_setStatus)

lemma keeps_onerror: "keeps status_ok onerror"
  unfolding onerror_def
  by (rule keeps_block) (simp add: keeps_stmt keeps_setStatus keeps_speak setTimeout_def)

lemma keeps_onend: "keeps status_ok onend"
  unfolding onend_def
  by (rule keeps_block) (simp add: keeps_def stmt_def)

lemma keeps_onresult: "keeps status_ok (onresult r)"
proof (rule keepsI)
  fix w assume w: "status_ok w"
  show "status_ok (snd (onresult r w))"
  proof (cases "sanitizeSpokenInput (extract_transcript r)")
    case (Inl e)
    with w show ?thesis by (simp add: onresult_def)
  next
    case (Inr c)
    with keepsD [OF keeps_request w, of "JStr c"] show ?thesis
      by (simp add: onresult_def)
  qed
qed

lemma keeps_handle: "keeps status_ok (handle e)"
proof (rule keepsI)
  fix w assume w: "status_ok w"
  show "status_ok (snd (handle e w))"
  proof (cases e)
    case (Click b)
    with keepsD [OF keeps_onclick w] show ?thesis by simp
  next
    case RecStart
    with w keepsD [OF keeps_onstart w] show ?thesis by simp
  next
    case (RecResult r)
    with w keepsD [OF keeps_onresult w] show ?thesis by simp
  next
    case RecError
    with w keepsD [OF keeps_onerror w] show ?thesis by simp
  next
    case RecEnd
    with w keepsD [OF keeps_onend w] show ?thesis by simp
  next
    case (TimerFired i)
    with w show ?thesis by (cases "snd (timers w ! i)") simp
  next
    case (FetchSettled i out)
    have "status_ok (w\<lparr>requests := drop_nth i (requests w)\<rparr>)" using w by simp
    from keepsD [OF keeps_settle this] w FetchSettled show ?thesis by simp
  next
    case (VoicesChanged vs)
    with w show ?thesis by simp
  qed
qed

lemma status_ok_run: "status_ok w \<Longrightarrow> status_ok (run es w)"
proof (induction es arbitrary: w)
  case Nil
  then show ?case by simp
next
  case (Cons e es)
  from keepsD [OF keeps_handle Cons(2)] have "status_ok (step e w)" by (simp add: step_def)
  then show ?case using Cons(1) by simp
qed

lemma status_ok_boot: "status_ok (boot r s vs cl t0)"
proof -
  let ?w = "\<lparr>state = initial_state,
        ui = \<lparr>statusText = t0, speakerText = t0, modeText = t0, micButton = cl\<rparr>,
        recognition = False, hasSpeechRecognition = r, hasSpeechSynthesis = s,
        voices = vs, effects = [], timers = [], requests = []\<rparr>"
  have "status_ok ?w" by (simp add: initial_state_def)
  moreover have "keeps status_ok (block [buildRecognition, updateUI])"
    by (rule keeps_block) (simp add: keeps_buildRecognition keeps_updateUI)
  ultimately have "status_ok (snd (block [buildRecognition, updateUI] ?w))"
    by (rule keepsD [rotated])
  then show ?thesis by (simp only: boot_def)
qed

section \<open>Speaker and mode through an invocation\<close>

lemma keeps_fields_setStatus:
  "keeps (\<lambda>w. currentSpeaker (state w) = c \<and> mode (state w) = m) (setStatus v)"
  by (simp add: keeps_def)

lemma keeps_fields_speak:
  "keeps (\<lambda>w. currentSpeaker (state w) = c \<and> mode (state w) = m) (speak t)"
  by (simp add: keeps_def)

lemma keeps_fields_catch:
  "keeps (\<lambda>w. currentSpeaker (state w) = c \<and> mode (state w) = m) (catch_block e)"
  by (simp add: keeps_def)

lemma late_fields:
  assumes "d \<noteq> JNull" and "d \<noteq> JUndefined"
  shows "currentSpeaker (state (snd (sendToLyra_settle (Responded True (JsonParsed d)) w)))
           = currentSpeaker (state (assigned d w))"
    and "mode (state (snd (sendToLyra_settle (Responded True (JsonParsed d)) w)))
           = mode (state (assigned d w))"
proof -
  let ?P = "\<lambda>x. currentSpeaker (state x) = currentSpeaker (state (assigned d w))
              \<and> mode (state x) = mode (state (assigned d w))"
  obtain r w3 where u: "updateUI (assigned d w) = (r, w3)"
    by (cases "updateUI (assigned d w)")
  then have "w3 = snd (updateUI (assigned d w))" by simp
  then have w3: "?P w3" by simp
  let ?b = "block [speak (or_else (opt_prop d (lit ''reply'')) (JStr apology)), setStatus (lit ''Idle'')]"
  have k: "keeps ?P ?b"
    by (rule keeps_block) (simp add: keeps_fields_speak keeps_fields_setStatus)
  obtain r' w4 where b: "?b w3 = (r', w4)" by (cases "?b w3")
  with keepsD [OF k w3] have w4: "?P w4" by simp
  have "?P (snd (sendToLyra_settle (Responded True (JsonParsed d)) w))"
  proof (cases r)
    case (Some e)
    with u keepsD [OF keeps_fields_catch w3, of e] show ?thesis
      by (simp add: sendToLyra_settle_def try_block_late [OF assms])
  next
    case None
    show ?thesis
    proof (cases r')
      case None
      with \<open>r = None\<close> u b w4 show ?thesis
        by (simp add: sendToLyra_settle_def try_block_late [OF assms] del: block.simps)
    next
      case (Some e)
      with \<open>r = None\<close> u b keepsD [OF keeps_fields_catch w4, of e] show ?thesis
        by (simp add: sendToLyra_settle_def try_block_late [OF assms] del: block.simps)
    qed
  qed
  then show "currentSpeaker (state (snd (sendToLyra_settle (Responded True (JsonParsed d)) w)))
           = currentSpeaker (state (assigned d w))"
    and "mode (state (snd (sendToLyra_settle (Responded True (JsonParsed d)) w)))
           = mode (state (assigned d w))"
    by simp_all
qed

lemma early_state:
  assumes "throws_early out"
  shows "state (snd (sendToLyra_settle out w)) = (state w)\<lparr>status := lit ''Error''\<rparr>"
proof -
  from try_block_early [OF assms, of w] obtain e where "try_block out w = (Some e, w)" by auto
  then show ?thesis by (simp add: settle_early)
qed

lemma request_fields:
  "currentSpeaker (state (snd (sendToLyra_request u w))) = currentSpeaker (state w)"
  "mode (state (snd (sendToLyra_request u w))) = mode (state w)"
proof -
  obtain r w1 where s: "setStatus (lit ''Thinking'') w = (r, w1)"
    by (cases "setStatus (lit ''Thinking'') w")
  then have "w1 = snd (setStatus (lit ''Thinking'') w)" by simp
  then have w1: "state w1 = (state w)\<lparr>status := lit ''Thinking''\<rparr>" by simp
  have "currentSpeaker (state (snd (sendToLyra_request u w))) = currentSpeaker (state w)
     \<and> mode (state (snd (sendToLyra_request u w))) = mode (state w)"
  proof (cases r)
    case None
    with s w1 show ?thesis
      by (cases "sanitizeSpokenInput u") (simp_all add: sendToLyra_request_def fetch_def)
  next
    case (Some e)
    with s w1 show ?thesis by (simp add: sendToLyra_request_def)
  qed
  then show "currentSpeaker (state (snd (sendToLyra_request u w))) = currentSpeaker (state w)"
    and "mode (state (snd (sendToLyra_request u w))) = mode (state w)"
    by simp_all
qed

lemma invocation_fields:
  assumes "throws_early out"
  shows "currentSpeaker (state (snd (sendToLyra u out w))) = currentSpeaker (state w)"
    and "mode (state (snd (sendToLyra u out w))) = mode (state w)"
proof -
  obtain r w1 where s: "setStatus (lit ''Thinking'') w = (r, w1)"
    by (cases "setStatus (lit ''Thinking'') w")
  then have "w1 = snd (setStatus (lit ''Thinking'') w)" by simp
  then have w1: "state w1 = (state w)\<lparr>status := lit ''Thinking''\<rparr>" by simp
  have "currentSpeaker (state (snd (sendToLyra u out w))) = currentSpeaker (state w)
     \<and> mode (state (snd (sendToLyra u out w))) = mode (state w)"
  proof (cases r)
    case None
    with s w1 early_state [OF assms, of w1] show ?thesis
      by (cases "sanitizeSpokenInput u") (simp_all add: sendToLyra_def)
  next
    case (Some e)
    with s w1 show ?thesis by (simp add: sendToLyra_def)
  qed
  then show "currentSpeaker (state (snd (sendToLyra u out w))) = currentSpeaker (state w)"
    and "mode (state (snd (sendToLyra u out w))) = mode (state w)"
    by simp_all
qed

section \<open>The two paths of the continuation\<close>

lemma failure_path:
  assumes "try_block out w = (Some e, w)" and "displayable w"
    and "sendToLyra_settle out w = (r, w')"
  shows "r = None"
    and "state w' = (state w)\<lparr>status := lit ''Error''\<rparr>"
    and "statusText (ui w') = lit ''Error''"
    and "effects w' = effects w @ ConsoleError e # spoken connection_issue w"
    and "timers w' = timers w @ [(1200, SetStatusIdle)]"
    and "status (state (step (TimerFired (length (timers w))) w')) = lit ''Idle''"
    and "requests w' = requests w"
proof -
  from assms have c: "catch_block e w = (r, w')" by (simp add: settle_early)
  with catch_block_returns [OF assms(2), of e] show "r = None" by simp
  from c have w': "w' = snd (catch_block e w)" by simp
  then show "state w' = (state w)\<lparr>status := lit ''Error''\<rparr>" by simp
  from w' show "statusText (ui w') = lit ''Error''" by simp
  from w' show "effects w' = effects w @ ConsoleError e # spoken connection_issue w"
    by (simp add: catch_block_returns [OF assms(2)] setTimeout_def)
  from w' show t: "timers w' = timers w @ [(1200, SetStatusIdle)]"
    by (simp add: catch_block_returns [OF assms(2)] setTimeout_def console_error_def)
  from step_timer_last(1) [OF t]
  show "status (state (step (TimerFired (length (timers w))) w')) = lit ''Idle''" by simp
  from w' show "requests w' = requests w" by simp
qed

text \<open>
  In a world that is not displayable the \<open>catch\<close> block throws in turn: the exception
  leaves \<open>sendToLyra\<close>, nothing is spoken and no timer is set.
\<close>

lemma failure_escapes:
  assumes "try_block out w = (Some e, w)" and "\<not> displayable w"
    and "sendToLyra_settle out w = (r, w')"
  shows "r = Some TypeError"
    and "effects w' = effects w @ [ConsoleError e]"
    and "timers w' = timers w"
proof -
  from assms have c: "(r, w') = (Some TypeError, snd (setStatus (lit ''Error'') (console_error e w)))"
    by (simp add: settle_early catch_block_throws)
  then show "r = Some TypeError" by simp
  from c have w': "w' = snd (setStatus (lit ''Error'') (console_error e w))" by simp
  then show "effects w' = effects w @ [ConsoleError e]" by (simp add: console_error_def)
  from w' show "timers w' = timers w" by (simp add: console_error_def)
qed

lemma success_path:
  assumes "d \<noteq> JNull" and "d \<noteq> JUndefined"
    and "displayable (assigned d w)"
    and "to_String (or_else (opt_prop d (lit ''reply'')) (JStr apology)) = Inr s"
    and "sendToLyra_settle (Responded True (JsonParsed d)) w = (r, w')"
  shows "r = None"
    and "state w' = (state (assigned d w))\<lparr>status := lit ''Idle''\<rparr>"
    and "effects w' = effects w @ spoken s w"
    and "timers w' = timers w" and "requests w' = requests w"
    and "projection w'"
proof -
  let ?x = "(snd (updateUI (assigned d w)))\<lparr>effects := effects w @ spoken s w\<rparr>"
  from settle_success [OF assms(1-4)] assms(5)
  have r: "r = None" and w': "w' = snd (setStatus (lit ''Idle'') ?x)" by simp_all
  show "r = None" by (rule r)
  from w' show "state w' = (state (assigned d w))\<lparr>status := lit ''Idle''\<rparr>" by simp
  from w' show "effects w' = effects w @ spoken s w" by simp
  from w' show "timers w' = timers w" by simp
  from w' show "requests w' = requests w" by simp
  have "displayable ?x" using assms(3) by (simp add: displayable_def)
  then show "projection w'" unfolding w' by (rule setStatus_projection)
qed

text \<open>When the UI refresh of line 97 throws, so does the one of the \<open>catch\<close> block.\<close>

lemma late_escapes:
  assumes "d \<noteq> JNull" and "d \<noteq> JUndefined"
    and "\<not> displayable (assigned d w)"
    and "sendToLyra_settle (Responded True (JsonParsed d)) w = (r, w')"
  shows "r = Some TypeError"
    and "state w' = (state (assigned d w))\<lparr>status := lit ''Error''\<rparr>"
    and "effects w' = effects w @ [ConsoleError TypeError]"
    and "timers w' = timers w"
proof -
  define w3 where "w3 = snd (updateUI (assigned d w))"
  from assms(3) have u: "updateUI (assigned d w) = (Some TypeError, w3)"
    unfolding w3_def by (rule updateUI_fails)
  from assms(3) have n: "\<not> displayable w3" by (simp add: w3_def displayable_def)
  from u assms(4) have c: "catch_block TypeError w3 = (r, w')"
    by (simp add: sendToLyra_settle_def try_block_late [OF assms(1,2)])
  with catch_block_throws [OF n, of TypeError]
  have r: "r = Some TypeError" and w': "w' = snd (setStatus (lit ''Error'') (console_error TypeError w3))"
    by simp_all
  show "r = Some TypeError" by (rule r)
  from w' show "state w' = (state (assigned d w))\<lparr>status := lit ''Error''\<rparr>"
    by (simp add: console_error_def w3_def)
  from w' show "effects w' = effects w @ [ConsoleError TypeError]"
    by (simp add: console_error_def w3_def)
  from w' show "timers w' = timers w" by (simp add: console_error_def w3_def)
qed

section \<open>The example pages\<close>

lemma example_page_eq:
  "example_page =
     \<lparr>state = initial_state,
      ui = \<lparr>statusText = lit ''Idle'', speakerText = lit ''Chaitu'', modeText = lit ''CHILL'',
            micButton = [lit ''mic'']\<rparr>,
      recognition = True, hasSpeechRecognition = True, hasSpeechSynthesis = True,
      voices = example_voices, effects = [], timers = [], requests = []\<rparr>"
  by code_simp

lemma example_page_fields:
  "state example_page = initial_state"
  "recognition example_page"
  "hasSpeechSynthesis example_page"
  "voices example_page = example_voices"
  "effects example_page = []"
  "timers example_page = []"
  "requests example_page = []"
  "displayable example_page"
  by (simp_all add: example_page_eq displayable_def initial_state_def)

lemma odd_page_eq:
  "odd_page =
     \<lparr>state = \<lparr>status = lit ''Error'', currentSpeaker = odd_object,
               mode = JStr (lit ''CHILL''), recognitionActive = False\<rparr>,
      ui = \<lparr>statusText = lit ''Error'', speakerText = lit ''Chaitu'', modeText = lit ''CHILL'',
            micButton = [lit ''mic'', lit ''thinking'']\<rparr>,
      recognition = True, hasSpeechRecognition = True, hasSpeechSynthesis = True,
      voices = example_voices, effects = [ConsoleError TypeError], timers = [],
      requests =
        [\<lparr>url = API_BASE_URL @ lit ''/lyra'', http_method = lit ''POST'',
          content_type = lit ''application/json'',
          body = \<lparr>message = lit ''hello world!!'', req_currentSpeaker = JStr (lit ''Chaitu''),
                   req_mode = JStr (lit ''CHILL'')\<rparr>\<rparr>]\<rparr>"
  by code_simp

lemma odd_page_fields:
  "effects odd_page = [ConsoleError TypeError]"
  "timers odd_page = []"
  "length (requests odd_page) = 1"
  "hasSpeechSynthesis odd_page"
  "status (state odd_page) = lit ''Error''"
  "\<not> displayable odd_page"
  by (simp_all add: odd_page_eq displayable_def odd_object_def)

lemma odd_page_pending:
  "\<not> displayable (odd_page\<lparr>requests := drop_nth 0 (requests odd_page)\<rparr>)"
  "effects (odd_page\<lparr>requests := drop_nth 0 (requests odd_page)\<rparr>) = [ConsoleError TypeError]"
  "timers (odd_page\<lparr>requests := drop_nth 0 (requests odd_page)\<rparr>) = []"
  using odd_page_fields by (simp_all add: displayable_def)

section \<open>Claims about the conversation client\<close>

lemma key_names_distinct:
  "lit ''error'' \<noteq> lit ''currentSpeaker''" "lit ''error'' \<noteq> lit ''mode''"
  "lit ''error'' \<noteq> lit ''reply''" "lit ''currentSpeaker'' \<noteq> lit ''mode''"
  "lit ''currentSpeaker'' \<noteq> lit ''reply''" "lit ''mode'' \<noteq> lit ''reply''"
  by simp_all

lemma map_of_drop_key:
  "k \<noteq> k' \<Longrightarrow> map_of (filter (\<lambda>p. fst p \<noteq> k') kvs) k = map_of kvs k"
  by (induction kvs) auto

lemma opt_prop_drop_key:
  "k \<noteq> k' \<Longrightarrow> opt_prop (JObj (filter (\<lambda>p. fst p \<noteq> k') kvs)) k = opt_prop (JObj kvs) k"
  by (simp add: opt_prop_def map_of_drop_key)

lemma opt_prop_dropped:
  "opt_prop (JObj (filter (\<lambda>p. fst p \<noteq> k) kvs)) k = JUndefined"
proof -
  have "map_of (filter (\<lambda>p. fst p \<noteq> k) kvs) k = None"
    by (induction kvs) auto
  then show ?thesis by (simp add: opt_prop_def)
qed

lemma opt_prop_obj:
  "opt_prop (JObj kvs) k = (case map_of kvs k of None \<Rightarrow> JUndefined | Some v \<Rightarrow> v)"
  by (simp add: opt_prop_def)

lemma try_block_not_ok:
  assumes "map_of kvs (lit ''error'') = Some v"
  shows "try_block (Responded False (JsonParsed (JObj kvs))) w =
     (Some (case to_String (or_else v (JStr (lit ''Unable to process request.''))) of
              Inl x \<Rightarrow> x
            | Inr m \<Rightarrow> Error m), w)"
  using assms by (simp add: try_block_def split: sum.splits)

lemma apology_differs: "apology \<noteq> connection_issue"
  by (simp add: apology_def connection_issue_def)

lemma to_String_apology [simp]: "to_String (or_else JUndefined (JStr apology)) = Inr apology"
  by (simp add: or_else_def)

lemma assigned_nothing:
  "opt_prop d (lit ''currentSpeaker'') = JUndefined \<Longrightarrow> opt_prop d (lit ''mode'') = JUndefined
   \<Longrightarrow> assigned d w = w"
  by (simp add: assigned_def or_else_def)

text \<open>
  Claim C1 as stated fails. On a response with \<open>ok\<close> true and the body
  \<open>{"error": "busy"}\<close> nothing is thrown: the status ends at \<open>Idle\<close>, no timer is
  set, and what is spoken is the apology for a missing reply, not the connection-issue
  message. The source tests \<open>response.ok\<close> only; it reads \<open>data.error\<close> for the text
  of the exception it throws when \<open>ok\<close> is false. And on a response that is not ok, with
  the same body, settled on the page whose \<open>state.currentSpeaker\<close> is an object with an
  own \<open>toString\<close>: \<open>setStatus('Error')\<close> of the \<open>catch\<close> block throws, so nothing
  is spoken and no timer is set.
\<close>

theorem error_field_counterexample:
  "fst (sendToLyra_settle
          (Responded True (JsonParsed (JObj [(lit ''error'', JStr (lit ''busy''))])))
          example_page) = None
   \<and> status (state (snd (sendToLyra_settle
          (Responded True (JsonParsed (JObj [(lit ''error'', JStr (lit ''busy''))])))
          example_page))) = lit ''Idle''
   \<and> lit ''Idle'' \<noteq> lit ''Error''
   \<and> timers (snd (sendToLyra_settle
          (Responded True (JsonParsed (JObj [(lit ''error'', JStr (lit ''busy''))])))
          example_page)) = []
   \<and> effects (snd (sendToLyra_settle
          (Responded True (JsonParsed (JObj [(lit ''error'', JStr (lit ''busy''))])))
          example_page)) = spoken apology example_page
   \<and> apology \<noteq> connection_issue
   \<and> fst (handle (FetchSettled 0
          (Responded False (JsonParsed (JObj [(lit ''error'', JStr (lit ''busy''))])))) odd_page)
      = Some TypeError
   \<and> timers (step (FetchSettled 0
          (Responded False (JsonParsed (JObj [(lit ''error'', JStr (lit ''busy''))])))) odd_page)
      = []
   \<and> effects (step (FetchSettled 0
          (Responded False (JsonParsed (JObj [(lit ''error'', JStr (lit ''busy''))])))) odd_page)
      = [ConsoleError TypeError, ConsoleError (Error (lit ''busy''))]"
proof -
  let ?d = "JObj [(lit ''error'', JStr (lit ''busy''))]"
  let ?w = "odd_page\<lparr>requests := drop_nth 0 (requests odd_page)\<rparr>"
  have n: "?d \<noteq> JNull" "?d \<noteq> JUndefined" by simp_all
  have p: "opt_prop ?d (lit ''reply'') = JUndefined" "opt_prop ?d (lit ''currentSpeaker'') = JUndefined"
    "opt_prop ?d (lit ''mode'') = JUndefined"
    by (simp_all add: opt_prop_obj)
  have a: "assigned ?d example_page = example_page"
    by (rule assigned_nothing) (simp_all add: p)
  have d: "displayable (assigned ?d example_page)"
    by (simp add: a example_page_fields)
  have s: "to_String (or_else (opt_prop ?d (lit ''reply'')) (JStr apology)) = Inr apology"
    by (simp add: p)
  note ok = success_path [OF n d s prod.collapse [symmetric]]
  have t: "try_block (Responded False (JsonParsed ?d)) ?w = (Some (Error (lit ''busy'')), ?w)"
    by (simp add: try_block_not_ok or_else_def)
  note bad = failure_escapes [OF t odd_page_pending(1) prod.collapse [symmetric]]
  have h: "handle (FetchSettled 0 (Responded False (JsonParsed ?d))) odd_page
      = sendToLyra_settle (Responded False (JsonParsed ?d)) ?w"
    by (simp add: odd_page_fields)
  note 1 = ok(1)
  from ok(2) have 2: "status (state (snd (sendToLyra_settle (Responded True (JsonParsed ?d))
          example_page))) = lit ''Idle''" by simp
  from ok(4) have 3: "timers (snd (sendToLyra_settle (Responded True (JsonParsed ?d))
          example_page)) = []" by (simp add: example_page_fields)
  from ok(3) have 4: "effects (snd (sendToLyra_settle (Responded True (JsonParsed ?d))
          example_page)) = spoken apology example_page" by (simp add: example_page_fields)
  from bad(1) have 5: "fst (handle (FetchSettled 0 (Responded False (JsonParsed ?d))) odd_page)
      = Some TypeError" by (simp only: h)
  from bad(3) have 6: "timers (step (FetchSettled 0 (Responded False (JsonParsed ?d))) odd_page) = []"
    by (simp only: step_def h odd_page_pending)
  from bad(2) have 7: "effects (step (FetchSettled 0 (Responded False (JsonParsed ?d))) odd_page)
      = [ConsoleError TypeError, ConsoleError (Error (lit ''busy''))]"
    by (simp add: step_def h odd_page_pending del: handle.simps)
  have 8: "lit ''Idle'' \<noteq> lit ''Error''" by simp
  from 1 2 3 4 5 6 7 8 apology_differs show ?thesis by (intro conjI)
qed

text \<open>
  Claim C1, amended. If the HTTP response carries a JSON body containing an \<open>error\<close>
  field and its status is not ok, then, while \<open>state.currentSpeaker\<close> and \<open>state.mode\<close>
  are values \<open>String\<close> converts, the invocation is treated as failure: nothing escapes
  the \<open>catch\<close> block, the status becomes \<open>Error\<close> (and the UI shows it), the failure
  is logged, the fixed connection-issue message is spoken, one timer of 1200 ms is set,
  and when it fires the status is \<open>Idle\<close>. With an ok status the \<open>error\<close> field is
  not looked at: the response is handled as the same body without it.
\<close>

theorem error_response_is_failure:
  assumes "map_of kvs (lit ''error'') = Some v"
    and "displayable w"
    and "sendToLyra_settle (Responded False (JsonParsed (JObj kvs))) w = (r, w')"
  shows "r = None
    \<and> state w' = (state w)\<lparr>status := lit ''Error''\<rparr>
    \<and> statusText (ui w') = lit ''Error''
    \<and> (\<exists>e. effects w' = effects w @ ConsoleError e # spoken connection_issue w)
    \<and> timers w' = timers w @ [(1200, SetStatusIdle)]
    \<and> status (state (step (TimerFired (length (timers w))) w')) = lit ''Idle''
    \<and> sendToLyra_settle (Responded True (JsonParsed (JObj kvs))) w =
        sendToLyra_settle
          (Responded True (JsonParsed (JObj (filter (\<lambda>p. fst p \<noteq> lit ''error'') kvs)))) w"
proof -
  note f = failure_path [OF try_block_not_ok [OF assms(1)] assms(2,3)]
  have "assigned (JObj kvs) w = assigned (JObj (filter (\<lambda>p. fst p \<noteq> lit ''error'') kvs)) w"
    using key_names_distinct by (simp add: assigned_def opt_prop_drop_key)
  moreover have "opt_prop (JObj kvs) (lit ''reply'')
      = opt_prop (JObj (filter (\<lambda>p. fst p \<noteq> lit ''error'') kvs)) (lit ''reply'')"
    using key_names_distinct by (simp add: opt_prop_drop_key)
  ultimately have "sendToLyra_settle (Responded True (JsonParsed (JObj kvs))) w =
        sendToLyra_settle
          (Responded True (JsonParsed (JObj (filter (\<lambda>p. fst p \<noteq> lit ''error'') kvs)))) w"
    by (intro settle_body) simp_all
  with f show ?thesis by (intro conjI exI) assumption+
qed

theorem error_response_is_failure_witness:
  "map_of [(lit ''error'', JStr (lit ''busy''))] (lit ''error'') = Some (JStr (lit ''busy''))
   \<and> displayable example_page
   \<and> fst (sendToLyra_settle (Responded False (JsonParsed (JObj [(lit ''error'', JStr (lit ''busy''))])))
        example_page) = None
   \<and> state (snd (sendToLyra_settle (Responded False (JsonParsed (JObj [(lit ''error'', JStr (lit ''busy''))])))
        example_page)) = initial_state\<lparr>status := lit ''Error''\<rparr>
   \<and> timers (snd (sendToLyra_settle (Responded False (JsonParsed (JObj [(lit ''error'', JStr (lit ''busy''))])))
        example_page)) = [(1200, SetStatusIdle)]"
proof -
  have m: "map_of [(lit ''error'', JStr (lit ''busy''))] (lit ''error'') = Some (JStr (lit ''busy''))"
    by simp
  note t = error_response_is_failure [OF m example_page_fields(8) prod.collapse [symmetric]]
  from t have "fst (sendToLyra_settle (Responded False (JsonParsed (JObj [(lit ''error'', JStr (lit ''busy''))])))
        example_page) = None" by (rule conjunct1)
  moreover from t have "state (snd (sendToLyra_settle (Responded False (JsonParsed (JObj [(lit ''error'', JStr (lit ''busy''))])))
        example_page)) = initial_state\<lparr>status := lit ''Error''\<rparr>"
    by (simp add: example_page_fields)
  moreover from t have "timers (snd (sendToLyra_settle (Responded False (JsonParsed (JObj [(lit ''error'', JStr (lit ''busy''))])))
        example_page)) = [(1200, SetStatusIdle)]"
    by (simp add: example_page_fields)
  ultimately show ?thesis using m example_page_fields(8) by (intro conjI)
qed

text \<open>
  Claim C3 as stated fails. On an ok response whose body has \<open>currentSpeaker\<close> and
  \<open>reply\<close> present and equal to the empty string, the speaker stays \<open>Chaitu\<close> and
  the apology is spoken instead of the reply. On an ok response whose body is \<open>null\<close>
  the status ends at \<open>Error\<close>. On an ok response whose \<open>currentSpeaker\<close> is an object
  with an own \<open>toString\<close> (and whose reply is \<open>hi\<close>), the UI refresh of line 97
  throws and so does the one of the \<open>catch\<close> block: the status ends at \<open>Error\<close>,
  nothing is spoken, and the exception leaves \<open>sendToLyra\<close>.
\<close>

theorem success_response_counterexample:
  "map_of [(lit ''currentSpeaker'', JStr []), (lit ''reply'', JStr [])] (lit ''currentSpeaker'')
     = Some (JStr [])
   \<and> currentSpeaker (state (snd (sendToLyra_settle
        (Responded True (JsonParsed (JObj [(lit ''currentSpeaker'', JStr []), (lit ''reply'', JStr [])])))
        example_page))) = JStr (lit ''Chaitu'')
   \<and> JStr (lit ''Chaitu'') \<noteq> JStr []
   \<and> map_of [(lit ''currentSpeaker'', JStr []), (lit ''reply'', JStr [])] (lit ''reply'')
     = Some (JStr [])
   \<and> effects (snd (sendToLyra_settle
        (Responded True (JsonParsed (JObj [(lit ''currentSpeaker'', JStr []), (lit ''reply'', JStr [])])))
        example_page)) = spoken apology example_page
   \<and> spoken apology example_page \<noteq> []
   \<and> status (state (snd (sendToLyra_settle (Responded True (JsonParsed JNull)) example_page)))
     = lit ''Error''
   \<and> fst (sendToLyra_settle
        (Responded True (JsonParsed
           (JObj [(lit ''currentSpeaker'', odd_object), (lit ''reply'', JStr (lit ''hi''))])))
        example_page) = Some TypeError
   \<and> status (state (snd (sendToLyra_settle
        (Responded True (JsonParsed
           (JObj [(lit ''currentSpeaker'', odd_object), (lit ''reply'', JStr (lit ''hi''))])))
        example_page))) = lit ''Error''
   \<and> effects (snd (sendToLyra_settle
        (Responded True (JsonParsed
           (JObj [(lit ''currentSpeaker'', odd_object), (lit ''reply'', JStr (lit ''hi''))])))
        example_page)) = [ConsoleError TypeError]"
proof -
  let ?d = "JObj [(lit ''currentSpeaker'', JStr []), (lit ''reply'', JStr [])]"
  let ?o = "JObj [(lit ''currentSpeaker'', odd_object), (lit ''reply'', JStr (lit ''hi''))]"
  have n: "?d \<noteq> JNull" "?d \<noteq> JUndefined" and no: "?o \<noteq> JNull" "?o \<noteq> JUndefined"
    by simp_all
  have p: "opt_prop ?d (lit ''currentSpeaker'') = JStr []" "opt_prop ?d (lit ''reply'') = JStr []"
    "opt_prop ?d (lit ''mode'') = JUndefined"
    by (simp_all add: opt_prop_obj)
  have a: "assigned ?d example_page = example_page"
    by (simp add: assigned_def or_else_def p)
  have d: "displayable (assigned ?d example_page)"
    by (simp add: a example_page_fields)
  have s: "to_String (or_else (opt_prop ?d (lit ''reply'')) (JStr apology)) = Inr apology"
    by (simp add: p or_else_def)
  note ok = success_path [OF n d s prod.collapse [symmetric]]
  from ok(2) have 1: "currentSpeaker (state (snd (sendToLyra_settle (Responded True (JsonParsed ?d))
        example_page))) = JStr (lit ''Chaitu'')"
    by (simp add: a example_page_fields initial_state_def)
  from ok(3) have 2: "effects (snd (sendToLyra_settle (Responded True (JsonParsed ?d))
        example_page)) = spoken apology example_page"
    by (simp add: example_page_fields)
  have 3: "spoken apology example_page \<noteq> []"
    by (simp add: spoken_def example_page_fields)
  have "throws_early (Responded True (JsonParsed JNull))" by (simp add: throws_early_def)
  from early_state [OF this, of example_page]
  have 4: "status (state (snd (sendToLyra_settle (Responded True (JsonParsed JNull)) example_page)))
     = lit ''Error''" by simp
  have "opt_prop ?o (lit ''currentSpeaker'') = odd_object" by (simp add: opt_prop_obj)
  then have "\<not> displayable (assigned ?o example_page)"
    by (simp add: displayable_def assigned_def or_else_def odd_object_def)
  note bad = late_escapes [OF no this prod.collapse [symmetric]]
  from bad(2) have 5: "status (state (snd (sendToLyra_settle (Responded True (JsonParsed ?o))
        example_page))) = lit ''Error''" by simp
  from bad(3) have 6: "effects (snd (sendToLyra_settle (Responded True (JsonParsed ?o))
        example_page)) = [ConsoleError TypeError]" by (simp add: example_page_fields)
  have 7: "JStr (lit ''Chaitu'') \<noteq> JStr []" by simp
  have 8: "map_of [(lit ''currentSpeaker'', JStr []), (lit ''reply'', JStr [])] (lit ''currentSpeaker'')
     = Some (JStr [])" by simp
  have 9: "map_of [(lit ''currentSpeaker'', JStr []), (lit ''reply'', JStr [])] (lit ''reply'')
     = Some (JStr [])" by simp
  from 8 1 7 9 2 3 4 bad(1) 5 6 show ?thesis by (intro conjI)
qed

text \<open>
  Claim C3, amended. When the response is ok and its body parses to a value other than
  \<open>null\<close>, and the values of \<open>currentSpeaker\<close>, \<open>mode\<close> and \<open>reply\<close>, in the
  state and in the body, are ones \<open>String\<close> converts (strings, for instance), the client
  sets \<open>state.currentSpeaker\<close> and \<open>state.mode\<close> to the response's values when they
  are present and truthy and keeps the prior values otherwise, calls \<open>speak\<close> with the
  response's \<open>reply\<close> when it is truthy and with the fixed apology otherwise, and
  finishes with status \<open>Idle\<close> (nothing thrown, no timer set, the UI showing the new
  state).
\<close>

theorem success_response_applied:
  assumes "d \<noteq> JNull" and "d \<noteq> JUndefined"
    and "displayable w"
    and "\<not> unconvertible (opt_prop d (lit ''currentSpeaker''))"
    and "\<not> unconvertible (opt_prop d (lit ''mode''))"
    and "\<not> unconvertible (opt_prop d (lit ''reply''))"
    and "sendToLyra_settle (Responded True (JsonParsed d)) w = (r, w')"
  shows "r = None
    \<and> currentSpeaker (state w') =
           (if truthy (opt_prop d (lit ''currentSpeaker'')) then opt_prop d (lit ''currentSpeaker'')
            else currentSpeaker (state w))
    \<and> mode (state w') =
           (if truthy (opt_prop d (lit ''mode'')) then opt_prop d (lit ''mode'')
            else mode (state w))
    \<and> (\<exists>s. to_String (if truthy (opt_prop d (lit ''reply'')) then opt_prop d (lit ''reply'')
                        else JStr apology) = Inr s
          \<and> effects w' = effects w @ spoken s w)
    \<and> status (state w') = lit ''Idle''
    \<and> recognitionActive (state w') = recognitionActive (state w)
    \<and> timers w' = timers w
    \<and> projection w'"
proof -
  have da: "displayable (assigned d w)"
    using assms(3-5) by (rule displayable_assigned)
  have "\<not> unconvertible (or_else (opt_prop d (lit ''reply'')) (JStr apology))"
    using assms(6) by (simp add: unconvertible_or_else)
  then obtain s where s: "to_String (or_else (opt_prop d (lit ''reply'')) (JStr apology)) = Inr s"
    using to_String_returns by auto
  note ok = success_path [OF assms(1,2) da s assms(7)]
  from s have s': "to_String (if truthy (opt_prop d (lit ''reply'')) then opt_prop d (lit ''reply'')
                        else JStr apology) = Inr s"
    by (simp add: or_else_def)
  from ok(2) have 1: "currentSpeaker (state w') =
           (if truthy (opt_prop d (lit ''currentSpeaker'')) then opt_prop d (lit ''currentSpeaker'')
            else currentSpeaker (state w))"
    and 2: "mode (state w') =
           (if truthy (opt_prop d (lit ''mode'')) then opt_prop d (lit ''mode'')
            else mode (state w))"
    and 3: "status (state w') = lit ''Idle''"
    and 4: "recognitionActive (state w') = recognitionActive (state w)"
    by (simp_all add: assigned_def or_else_def)
  from s' ok(3) have 5: "\<exists>s. to_String (if truthy (opt_prop d (lit ''reply'')) then opt_prop d (lit ''reply'')
                        else JStr apology) = Inr s \<and> effects w' = effects w @ spoken s w"
    by (intro exI conjI)
  from ok(1) 1 2 5 3 4 ok(4) ok(6) show ?thesis by (intro conjI)
qed

theorem success_response_applied_witness:
  "fst (sendToLyra_settle
      (Responded True (JsonParsed (JObj [(lit ''reply'', JStr (lit ''hi'')), (lit ''mode'', JStr (lit ''FOCUS''))])))
      example_page) = None
   \<and> mode (state (snd (sendToLyra_settle
      (Responded True (JsonParsed (JObj [(lit ''reply'', JStr (lit ''hi'')), (lit ''mode'', JStr (lit ''FOCUS''))])))
      example_page))) = JStr (lit ''FOCUS'')
   \<and> currentSpeaker (state (snd (sendToLyra_settle
      (Responded True (JsonParsed (JObj [(lit ''reply'', JStr (lit ''hi'')), (lit ''mode'', JStr (lit ''FOCUS''))])))
      example_page))) = JStr (lit ''Chaitu'')
   \<and> status (state (snd (sendToLyra_settle
      (Responded True (JsonParsed (JObj [(lit ''reply'', JStr (lit ''hi'')), (lit ''mode'', JStr (lit ''FOCUS''))])))
      example_page))) = lit ''Idle''
   \<and> effects (snd (sendToLyra_settle
      (Responded True (JsonParsed (JObj [(lit ''reply'', JStr (lit ''hi'')), (lit ''mode'', JStr (lit ''FOCUS''))])))
      example_page)) = spoken (lit ''hi'') example_page"
proof -
  let ?d = "JObj [(lit ''reply'', JStr (lit ''hi'')), (lit ''mode'', JStr (lit ''FOCUS''))]"
  have n: "?d \<noteq> JNull" "?d \<noteq> JUndefined" by simp_all
  have p: "opt_prop ?d (lit ''currentSpeaker'') = JUndefined"
    "opt_prop ?d (lit ''reply'') = JStr (lit ''hi'')"
    "opt_prop ?d (lit ''mode'') = JStr (lit ''FOCUS'')"
    by (simp_all add: opt_prop_obj)
  have u: "\<not> unconvertible (opt_prop ?d (lit ''currentSpeaker''))"
    "\<not> unconvertible (opt_prop ?d (lit ''mode''))"
    "\<not> unconvertible (opt_prop ?d (lit ''reply''))"
    by (simp_all add: p)
  note t = success_response_applied [OF n example_page_fields(8) u prod.collapse [symmetric]]
  from t show ?thesis
    by (simp add: p example_page_fields initial_state_def)
qed

text \<open>
  Claim C4 as stated fails. On the page whose \<open>state.currentSpeaker\<close> is an object with
  an own \<open>toString\<close>, the pending fetch rejects: the \<open>catch\<close> block logs the failure,
  its \<open>setStatus('Error')\<close> throws in the UI refresh, and the exception leaves
  \<open>sendToLyra\<close>; nothing is spoken and no timer is set.
\<close>

theorem exception_escapes_counterexample:
  "fst (handle (FetchSettled 0 FetchRejected) odd_page) = Some TypeError
   \<and> timers (step (FetchSettled 0 FetchRejected) odd_page) = []
   \<and> effects (step (FetchSettled 0 FetchRejected) odd_page)
       = [ConsoleError TypeError, ConsoleError FetchFailure]"
proof -
  let ?w = "odd_page\<lparr>requests := drop_nth 0 (requests odd_page)\<rparr>"
  have t: "try_block FetchRejected ?w = (Some FetchFailure, ?w)"
    by (simp add: try_block_def)
  note bad = failure_escapes [OF t odd_page_pending(1) prod.collapse [symmetric]]
  have h: "handle (FetchSettled 0 FetchRejected) odd_page = sendToLyra_settle FetchRejected ?w"
    by (simp add: odd_page_fields)
  from bad(1) have 1: "fst (handle (FetchSettled 0 FetchRejected) odd_page) = Some TypeError"
    by (simp only: h)
  from bad(3) have 2: "timers (step (FetchSettled 0 FetchRejected) odd_page) = []"
    by (simp only: step_def h odd_page_pending)
  from bad(2) have 3: "effects (step (FetchSettled 0 FetchRejected) odd_page)
       = [ConsoleError TypeError, ConsoleError FetchFailure]"
    by (simp add: step_def h odd_page_pending del: handle.simps)
  from 1 2 3 show ?thesis by (intro conjI)
qed

text \<open>
  Claim C4, amended. When the fetch rejects, or \<open>response.json()\<close> rejects, or the
  response check throws (status not ok), then, while \<open>state.currentSpeaker\<close> and
  \<open>state.mode\<close> are values \<open>String\<close> converts, the \<open>catch\<close> block handles the
  exception and nothing escapes it: the status becomes \<open>Error\<close>, the exception is
  logged, the fixed connection-issue message is spoken, a timer of 1200 ms is set, and when
  that timer fires the status is \<open>Idle\<close>.
\<close>

theorem exception_is_caught:
  assumes "out = FetchRejected \<or> out = Responded ok JsonRejected
           \<or> out = Responded False (JsonParsed d)"
    and "displayable w"
    and "sendToLyra_settle out w = (r, w')"
  shows "r = None
    \<and> (\<exists>e. try_block out w = (Some e, w)
          \<and> effects w' = effects w @ ConsoleError e # spoken connection_issue w)
    \<and> status (state w') = lit ''Error''
    \<and> statusText (ui w') = lit ''Error''
    \<and> timers w' = timers w @ [(1200, SetStatusIdle)]
    \<and> status (state (step (TimerFired (length (timers w))) w')) = lit ''Idle''"
proof -
  from assms(1) have "throws_early out" by (auto simp: throws_early_def)
  from try_block_early [OF this, of w] obtain e where e: "try_block out w = (Some e, w)" by auto
  note f = failure_path [OF e assms(2,3)]
  from e f(4) have 1: "\<exists>e. try_block out w = (Some e, w)
          \<and> effects w' = effects w @ ConsoleError e # spoken connection_issue w"
    by (intro exI conjI)
  from f(2) have 2: "status (state w') = lit ''Error''" by simp
  from f(1) 1 2 f(3) f(5) f(6) show ?thesis by (intro conjI)
qed

theorem exception_is_caught_witness:
  "displayable example_page
   \<and> fst (sendToLyra_settle FetchRejected example_page) = None
   \<and> try_block FetchRejected example_page = (Some FetchFailure, example_page)
   \<and> status (state (snd (sendToLyra_settle FetchRejected example_page))) = lit ''Error''
   \<and> timers (snd (sendToLyra_settle FetchRejected example_page)) = [(1200, SetStatusIdle)]
   \<and> status (state (step (TimerFired 0) (snd (sendToLyra_settle FetchRejected example_page))))
        = lit ''Idle''"
proof -
  have o: "FetchRejected = FetchRejected \<or> FetchRejected = Responded True JsonRejected
           \<or> FetchRejected = Responded False (JsonParsed JNull)" by simp
  note t = exception_is_caught [OF o example_page_fields(8) prod.collapse [symmetric]]
  have "try_block FetchRejected example_page = (Some FetchFailure, example_page)"
    by (simp add: try_block_def)
  with t example_page_fields(8) show ?thesis
    by (simp add: example_page_fields)
qed

text \<open>
  Claim C9 as stated fails. On an ok response with \<open>currentSpeaker\<close> \<open>Asha\<close> and a
  \<open>reply\<close> that is an object with an own \<open>toString\<close>, line 95 assigns the speaker,
  \<open>speak\<close> throws at line 99 when it constructs the utterance, and the \<open>catch\<close>
  block runs to its end (status \<open>Error\<close>, the 1200 ms timer): the failure path was taken
  and \<open>state.currentSpeaker\<close> is no longer what it was.
\<close>

theorem failure_after_assignment_counterexample:
  "fst (try_block
          (Responded True (JsonParsed
             (JObj [(lit ''currentSpeaker'', JStr (lit ''Asha'')), (lit ''reply'', odd_object)])))
          example_page) = Some TypeError
   \<and> status (state (snd (sendToLyra_settle
          (Responded True (JsonParsed
             (JObj [(lit ''currentSpeaker'', JStr (lit ''Asha'')), (lit ''reply'', odd_object)])))
          example_page))) = lit ''Error''
   \<and> timers (snd (sendToLyra_settle
          (Responded True (JsonParsed
             (JObj [(lit ''currentSpeaker'', JStr (lit ''Asha'')), (lit ''reply'', odd_object)])))
          example_page)) = [(1200, SetStatusIdle)]
   \<and> currentSpeaker (state (snd (sendToLyra_settle
          (Responded True (JsonParsed
             (JObj [(lit ''currentSpeaker'', JStr (lit ''Asha'')), (lit ''reply'', odd_object)])))
          example_page))) = JStr (lit ''Asha'')
   \<and> currentSpeaker (state example_page) = JStr (lit ''Chaitu'')
   \<and> JStr (lit ''Asha'') \<noteq> JStr (lit ''Chaitu'')"
proof -
  let ?d = "JObj [(lit ''currentSpeaker'', JStr (lit ''Asha'')), (lit ''reply'', odd_object)]"
  let ?a = "assigned ?d example_page"
  define w3 where "w3 = snd (updateUI ?a)"
  define w4 where "w4 = w3\<lparr>effects := effects w3 @ [SynthCancel]\<rparr>"
  have n: "?d \<noteq> JNull" "?d \<noteq> JUndefined" by simp_all
  have p: "opt_prop ?d (lit ''currentSpeaker'') = JStr (lit ''Asha'')"
    "opt_prop ?d (lit ''reply'') = odd_object" "opt_prop ?d (lit ''mode'') = JUndefined"
    by (simp_all add: opt_prop_obj)
  have da: "displayable ?a"
    using example_page_fields(8) by (simp add: displayable_def assigned_def or_else_def p)
  then have u: "updateUI ?a = (None, w3)" unfolding w3_def by (rule updateUI_ok)
  have o: "or_else odd_object (JStr apology) = odd_object" "truthy odd_object"
    "to_String odd_object = Inl TypeError"
    by (simp_all add: or_else_def odd_object_def)
  have s3: "hasSpeechSynthesis w3" by (simp add: w3_def example_page_fields)
  have sp: "speak odd_object w3 = (Some TypeError, w4)"
    using s3 by (simp add: speak_throws [OF o(3) o(2)] w4_def)
  have t: "try_block (Responded True (JsonParsed ?d)) example_page = (Some TypeError, w4)"
    by (simp add: try_block_late [OF n] u p o(1) sp)
  have d4: "displayable w4" using da by (simp add: w4_def w3_def displayable_def)
  have st: "sendToLyra_settle (Responded True (JsonParsed ?d)) example_page
      = catch_block TypeError w4"
    by (simp add: sendToLyra_settle_def t)
  have 1: "status (state (snd (sendToLyra_settle (Responded True (JsonParsed ?d)) example_page)))
      = lit ''Error''" by (simp add: st)
  have tw: "timers w4 = []" by (simp add: w4_def w3_def example_page_fields)
  have "timers (snd (catch_block TypeError w4)) = timers w4 @ [(1200, SetStatusIdle)]"
    by (simp add: catch_block_returns [OF d4] setTimeout_def console_error_def)
  then have 2: "timers (snd (sendToLyra_settle (Responded True (JsonParsed ?d)) example_page))
      = [(1200, SetStatusIdle)]"
    by (simp only: st tw append_Nil)
  have 3: "currentSpeaker (state (snd (sendToLyra_settle (Responded True (JsonParsed ?d))
      example_page))) = JStr (lit ''Asha'')"
    by (simp add: late_fields [OF n] assigned_def or_else_def p)
  have 4: "currentSpeaker (state example_page) = JStr (lit ''Chaitu'')"
    by (simp add: example_page_fields initial_state_def)
  have 5: "JStr (lit ''Asha'') \<noteq> JStr (lit ''Chaitu'')" by simp
  from t have 0: "fst (try_block (Responded True (JsonParsed ?d)) example_page) = Some TypeError"
    by simp
  from 0 1 2 3 4 5 show ?thesis by (intro conjI)
qed

text \<open>
  Claim C9, amended. When an invocation of \<open>sendToLyra\<close> takes the failure path
  because the fetch rejects, the body does not parse, the status is not ok or the body is
  \<open>null\<close> (every exception thrown before line 95), \<open>state.currentSpeaker\<close> and
  \<open>state.mode\<close> are what they were when it started: of the state, only \<open>status\<close>
  changes, in the part before the fetch, in the part after it, and in the invocation as a
  whole. (An exception thrown by lines 97 to 100 reaches the \<open>catch\<close> block with the
  response's values assigned.)
\<close>

theorem failure_keeps_speaker_and_mode:
  assumes "throws_early out"
  shows "state (snd (sendToLyra_settle out w)) = (state w)\<lparr>status := lit ''Error''\<rparr>
    \<and> currentSpeaker (state (snd (sendToLyra_request u w))) = currentSpeaker (state w)
    \<and> mode (state (snd (sendToLyra_request u w))) = mode (state w)
    \<and> currentSpeaker (state (snd (sendToLyra u out w))) = currentSpeaker (state w)
    \<and> mode (state (snd (sendToLyra u out w))) = mode (state w)"
  using early_state [OF assms, of w] request_fields [of u w] invocation_fields [OF assms, of u w]
  by (intro conjI)

theorem failure_keeps_speaker_and_mode_witness:
  "throws_early (Responded False (JsonParsed (JObj [(lit ''currentSpeaker'', JStr (lit ''Asha''))])))
   \<and> state (snd (sendToLyra_settle
        (Responded False (JsonParsed (JObj [(lit ''currentSpeaker'', JStr (lit ''Asha''))])))
        example_page)) = initial_state\<lparr>status := lit ''Error''\<rparr>
   \<and> currentSpeaker (state (snd (sendToLyra (JStr (lit ''hello''))
        (Responded False (JsonParsed (JObj [(lit ''currentSpeaker'', JStr (lit ''Asha''))])))
        example_page))) = JStr (lit ''Chaitu'')
   \<and> mode (state (snd (sendToLyra (JStr (lit ''hello''))
        (Responded False (JsonParsed (JObj [(lit ''currentSpeaker'', JStr (lit ''Asha''))])))
        example_page))) = JStr (lit ''CHILL'')"
proof -
  have h: "throws_early (Responded False (JsonParsed (JObj [(lit ''currentSpeaker'', JStr (lit ''Asha''))])))"
    by (simp add: throws_early_def)
  from failure_keeps_speaker_and_mode [OF h, of example_page "JStr (lit ''hello'')"] h
  show ?thesis
    by (simp add: example_page_fields initial_state_def)
qed

text \<open>
  Claim C10. In a successful response, a \<open>currentSpeaker\<close> or \<open>mode\<close> that is
  present but falsy is treated exactly like an absent one: the client does what it does
  for the same body without the field, and keeps the prior value.
\<close>

theorem falsy_field_is_absent_field:
  assumes "k = lit ''currentSpeaker'' \<or> k = lit ''mode''"
    and "map_of kvs k = Some v" and "\<not> truthy v"
  shows "sendToLyra_settle (Responded True (JsonParsed (JObj kvs))) w =
         sendToLyra_settle (Responded True (JsonParsed (JObj (filter (\<lambda>p. fst p \<noteq> k) kvs)))) w
    \<and> (k = lit ''currentSpeaker'' \<longrightarrow>
         currentSpeaker (state (snd (sendToLyra_settle (Responded True (JsonParsed (JObj kvs))) w)))
           = currentSpeaker (state w))
    \<and> (k = lit ''mode'' \<longrightarrow>
         mode (state (snd (sendToLyra_settle (Responded True (JsonParsed (JObj kvs))) w)))
           = mode (state w))"
proof -
  let ?f = "filter (\<lambda>p. fst p \<noteq> k) kvs"
  from assms(2) have v: "opt_prop (JObj kvs) k = v" by (simp add: opt_prop_def)
  have x: "or_else (opt_prop (JObj kvs) k) y = y" for y
    using v assms(3) by (simp add: or_else_def)
  have x': "or_else (opt_prop (JObj ?f) k) y = y" for y
    by (simp add: or_else_def opt_prop_dropped)
  have n: "JObj kvs \<noteq> JNull" "JObj kvs \<noteq> JUndefined" "JObj ?f \<noteq> JNull" "JObj ?f \<noteq> JUndefined"
    by simp_all
  from assms(1) show ?thesis
  proof
    assume k: "k = lit ''currentSpeaker''"
    have a: "assigned (JObj kvs) w = assigned (JObj ?f) w"
      using x [unfolded k] x' [unfolded k] key_names_distinct
      by (simp add: assigned_def opt_prop_drop_key k)
    have r: "opt_prop (JObj kvs) (lit ''reply'') = opt_prop (JObj ?f) (lit ''reply'')"
      using key_names_distinct by (simp add: opt_prop_drop_key k)
    have "sendToLyra_settle (Responded True (JsonParsed (JObj kvs))) w =
         sendToLyra_settle (Responded True (JsonParsed (JObj ?f))) w"
      using r a n by (rule settle_body)
    moreover have "currentSpeaker (state (snd (sendToLyra_settle (Responded True (JsonParsed (JObj kvs))) w)))
           = currentSpeaker (state w)"
      using x [unfolded k] by (simp add: late_fields assigned_def)
    ultimately show ?thesis using key_names_distinct by (simp add: k)
  next
    assume k: "k = lit ''mode''"
    have a: "assigned (JObj kvs) w = assigned (JObj ?f) w"
      using x [unfolded k] x' [unfolded k] key_names_distinct
      by (simp add: assigned_def opt_prop_drop_key k)
    have r: "opt_prop (JObj kvs) (lit ''reply'') = opt_prop (JObj ?f) (lit ''reply'')"
      using key_names_distinct by (simp add: opt_prop_drop_key k)
    have "sendToLyra_settle (Responded True (JsonParsed (JObj kvs))) w =
         sendToLyra_settle (Responded True (JsonParsed (JObj ?f))) w"
      using r a n by (rule settle_body)
    moreover have "mode (state (snd (sendToLyra_settle (Responded True (JsonParsed (JObj kvs))) w)))
           = mode (state w)"
      using x [unfolded k] by (simp add: late_fields assigned_def)
    ultimately show ?thesis using key_names_distinct by (simp add: k)
  qed
qed

theorem falsy_field_is_absent_field_witness:
  "sendToLyra_settle (Responded True (JsonParsed (JObj [(lit ''reply'', JStr (lit ''hi'')), (lit ''mode'', JStr [])]))) example_page
   = sendToLyra_settle (Responded True (JsonParsed (JObj [(lit ''reply'', JStr (lit ''hi''))]))) example_page
   \<and> mode (state (snd (sendToLyra_settle (Responded True (JsonParsed (JObj [(lit ''reply'', JStr (lit ''hi'')), (lit ''mode'', JStr [])]))) example_page)))
   = JStr (lit ''CHILL'')"
proof -
  have m: "map_of [(lit ''reply'', JStr (lit ''hi'')), (lit ''mode'', JStr [])] (lit ''mode'') = Some (JStr [])"
    by simp
  have f: "filter (\<lambda>p. fst p \<noteq> lit ''mode'') [(lit ''reply'', JStr (lit ''hi'')), (lit ''mode'', JStr [])]
     = [(lit ''reply'', JStr (lit ''hi''))]"
    by simp
  have k: "lit ''mode'' = lit ''currentSpeaker'' \<or> lit ''mode'' = lit ''mode''" by simp
  have t: "\<not> truthy (JStr [])" by simp
  note r = falsy_field_is_absent_field [OF k m t, of example_page, unfolded f]
  from r have a: "sendToLyra_settle (Responded True (JsonParsed (JObj [(lit ''reply'', JStr (lit ''hi'')), (lit ''mode'', JStr [])]))) example_page
   = sendToLyra_settle (Responded True (JsonParsed (JObj [(lit ''reply'', JStr (lit ''hi''))]))) example_page"
    by (rule conjunct1)
  note r [THEN conjunct2, THEN conjunct2, THEN mp, OF refl]
  then have b: "mode (state (snd (sendToLyra_settle (Responded True (JsonParsed (JObj [(lit ''reply'', JStr (lit ''hi'')), (lit ''mode'', JStr [])]))) example_page)))
   = JStr (lit ''CHILL'')"
    by (simp add: example_page_fields initial_state_def)
  from a b show ?thesis by (rule conjI)
qed

section \<open>The status invariant and the UI refresh\<close>

lemma updateUI_writes_ui: "snd (updateUI w) = w\<lparr>ui := ui (snd (updateUI w))\<rparr>"
  by (cases w rule: updateUI_cases)
     (simp_all add: updateUI_returns updateUI_throws_speaker updateUI_throws_mode
        update_classes_def Let_def)

text \<open>
  Claim C5. Whatever events the loop delivers after the script has loaded (clicks,
  recognition callbacks, timers, settled fetches, voice list changes), and whether their
  handlers return or throw, \<open>state.status\<close> is one of \<open>Idle\<close>, \<open>Listening\<close>,
  \<open>Thinking\<close>, \<open>Error\<close>. The UI refresh reads the state fields only: it changes
  nothing but the UI, and what it writes and whether it throws are determined by the state
  (and by the UI it writes into); when it returns, the UI is the projection of the state.
\<close>

theorem status_is_one_of_four_and_ui_reads_state:
  "status (state (run es (boot r s vs cl t0)))
     \<in> {lit ''Idle'', lit ''Listening'', lit ''Thinking'', lit ''Error''}
   \<and> state (snd (updateUI w)) = state w
   \<and> snd (updateUI w) = w\<lparr>ui := ui (snd (updateUI w))\<rparr>
   \<and> (state w1 = state w2 \<and> ui w1 = ui w2 \<longrightarrow>
        fst (updateUI w1) = fst (updateUI w2) \<and> ui (snd (updateUI w1)) = ui (snd (updateUI w2)))
   \<and> (fst (updateUI w) = None \<longrightarrow> projection (snd (updateUI w)))"
proof -
  have "status (state (run es (boot r s vs cl t0))) \<in> status_values"
    by (intro status_ok_run status_ok_boot)
  then have 1: "status (state (run es (boot r s vs cl t0)))
     \<in> {lit ''Idle'', lit ''Listening'', lit ''Thinking'', lit ''Error''}"
    by (simp only: status_values_def)
  have 2: "state w1 = state w2 \<and> ui w1 = ui w2 \<longrightarrow>
        fst (updateUI w1) = fst (updateUI w2) \<and> ui (snd (updateUI w1)) = ui (snd (updateUI w2))"
    using updateUI_reads [of w1 w2] by simp
  have 3: "fst (updateUI w) = None \<longrightarrow> projection (snd (updateUI w))"
    using updateUI_projection [of w] by (simp add: updateUI_fst split: if_splits)
  from 1 updateUI_frame(1) [of w] updateUI_writes_ui [of w] 2 3 show ?thesis
    by (intro conjI)
qed

theorem status_is_one_of_four_and_ui_reads_state_witness:
  "status (state (run [RecStart, RecEnd] example_page))
     \<in> {lit ''Idle'', lit ''Listening'', lit ''Thinking'', lit ''Error''}
   \<and> state example_page = state (example_page\<lparr>effects := [SynthCancel]\<rparr>)
   \<and> ui example_page = ui (example_page\<lparr>effects := [SynthCancel]\<rparr>)
   \<and> ui (snd (updateUI example_page)) = ui (snd (updateUI (example_page\<lparr>effects := [SynthCancel]\<rparr>)))
   \<and> fst (updateUI example_page) = None
   \<and> projection (snd (updateUI example_page))"
proof -
  note t = status_is_one_of_four_and_ui_reads_state
      [of "[RecStart, RecEnd]" True True example_voices "[lit ''mic'']" "[]" example_page
          example_page "example_page\<lparr>effects := [SynthCancel]\<rparr>", folded example_page_def]
  have n: "fst (updateUI example_page) = None"
    by (simp add: updateUI_fst example_page_fields)
  from t n show ?thesis by simp
qed

section \<open>Voice selection\<close>

lemma find_first:
  "\<exists>v \<in> set vs. P v \<Longrightarrow>
   \<exists>i < length vs. find P vs = Some (vs ! i) \<and> P (vs ! i) \<and> (\<forall>j < i. \<not> P (vs ! j))"
proof -
  assume "\<exists>v \<in> set vs. P v"
  then have "find P vs \<noteq> None" unfolding find_None_iff by blast
  then obtain v where "find P vs = Some v" by blast
  then show ?thesis unfolding find_Some_iff by blast
qed

text \<open>
  Claim C6. For every list of voices, \<open>getPreferredVoice\<close> returns the first voice
  whose \<open>lang\<close> matches \<open>/en-IN|hi-IN|mr-IN/i\<close> if there is one; otherwise the first
  voice whose \<open>name\<close> matches the pattern of names if there is one; otherwise the first
  voice of the list; and \<open>undefined\<close> when the list is empty.
\<close>

theorem preferred_voice_order:
  "((\<exists>v \<in> set vs. lang_preferred v) \<longrightarrow>
      (\<exists>i < length vs. getPreferredVoice vs = Some (vs ! i) \<and> lang_preferred (vs ! i)
         \<and> (\<forall>j < i. \<not> lang_preferred (vs ! j))))
   \<and> (\<not> (\<exists>v \<in> set vs. lang_preferred v) \<and> (\<exists>v \<in> set vs. name_preferred v) \<longrightarrow>
      (\<exists>i < length vs. getPreferredVoice vs = Some (vs ! i) \<and> name_preferred (vs ! i)
         \<and> (\<forall>j < i. \<not> name_preferred (vs ! j))))
   \<and> (\<not> (\<exists>v \<in> set vs. lang_preferred v) \<and> \<not> (\<exists>v \<in> set vs. name_preferred v) \<and> vs \<noteq> [] \<longrightarrow>
      getPreferredVoice vs = Some (vs ! 0))
   \<and> getPreferredVoice [] = None"
proof (intro conjI impI)
  assume "\<exists>v \<in> set vs. lang_preferred v"
  from find_first [OF this]
  show "\<exists>i < length vs. getPreferredVoice vs = Some (vs ! i) \<and> lang_preferred (vs ! i)
         \<and> (\<forall>j < i. \<not> lang_preferred (vs ! j))"
    by (auto simp: getPreferredVoice_def)
next
  assume a: "\<not> (\<exists>v \<in> set vs. lang_preferred v) \<and> (\<exists>v \<in> set vs. name_preferred v)"
  then have "find lang_preferred vs = None" by (simp add: find_None_iff)
  moreover from a have "\<exists>v \<in> set vs. name_preferred v" by simp
  note find_first [OF this]
  ultimately show "\<exists>i < length vs. getPreferredVoice vs = Some (vs ! i) \<and> name_preferred (vs ! i)
         \<and> (\<forall>j < i. \<not> name_preferred (vs ! j))"
    by (auto simp: getPreferredVoice_def)
next
  assume a: "\<not> (\<exists>v \<in> set vs. lang_preferred v) \<and> \<not> (\<exists>v \<in> set vs. name_preferred v) \<and> vs \<noteq> []"
  then have "find lang_preferred vs = None" "find name_preferred vs = None"
    by (simp_all add: find_None_iff)
  with a show "getPreferredVoice vs = Some (vs ! 0)"
    by (cases vs) (simp_all add: getPreferredVoice_def)
next
  show "getPreferredVoice [] = None"
    by (simp add: getPreferredVoice_def)
qed

lemma lang_examples:
  "\<not> lang_preferred \<lparr>lang = Some (lit ''en-US''), name = None\<rparr>"
  "lang_preferred \<lparr>lang = Some (lit ''en-IN''), name = None\<rparr>"
  "\<not> lang_preferred \<lparr>lang = None, name = Some (lit ''David'')\<rparr>"
  "\<not> lang_preferred \<lparr>lang = None, name = Some (lit ''Zira'')\<rparr>"
  by code_simp+

lemma name_examples:
  "\<not> name_preferred \<lparr>lang = None, name = Some (lit ''David'')\<rparr>"
  "name_preferred \<lparr>lang = None, name = Some (lit ''Zira'')\<rparr>"
  by code_simp+

theorem preferred_voice_order_witness:
  "getPreferredVoice [\<lparr>lang = Some (lit ''en-US''), name = None\<rparr>,
                      \<lparr>lang = Some (lit ''en-IN''), name = None\<rparr>]
     = Some \<lparr>lang = Some (lit ''en-IN''), name = None\<rparr>
   \<and> getPreferredVoice [\<lparr>lang = None, name = Some (lit ''David'')\<rparr>,
                        \<lparr>lang = None, name = Some (lit ''Zira'')\<rparr>]
     = Some \<lparr>lang = None, name = Some (lit ''Zira'')\<rparr>
   \<and> getPreferredVoice [\<lparr>lang = None, name = Some (lit ''David'')\<rparr>]
     = Some \<lparr>lang = None, name = Some (lit ''David'')\<rparr>
   \<and> getPreferredVoice [] = None"
proof -
  let ?us = "\<lparr>lang = Some (lit ''en-US''), name = None\<rparr>"
  let ?in = "\<lparr>lang = Some (lit ''en-IN''), name = None\<rparr>"
  let ?da = "\<lparr>lang = None, name = Some (lit ''David'')\<rparr>"
  let ?zi = "\<lparr>lang = None, name = Some (lit ''Zira'')\<rparr>"
  have 1: "\<exists>v \<in> set [?us, ?in]. lang_preferred v"
    by (simp add: lang_examples)
  with preferred_voice_order [of "[?us, ?in]"]
  have "\<exists>i < length [?us, ?in]. getPreferredVoice [?us, ?in] = Some ([?us, ?in] ! i)
          \<and> lang_preferred ([?us, ?in] ! i) \<and> (\<forall>j < i. \<not> lang_preferred ([?us, ?in] ! j))"
    by blast
  then obtain i where i: "i < length [?us, ?in]"
    and gi: "getPreferredVoice [?us, ?in] = Some ([?us, ?in] ! i)"
    and pi: "lang_preferred ([?us, ?in] ! i)"
    by blast
  from i have "i = 0 \<or> i = 1" by (simp add: less_Suc_eq)
  with pi lang_examples(1) have "i = 1" by auto
  with gi have a: "getPreferredVoice [?us, ?in] = Some ?in" by simp
  have 2: "\<not> (\<exists>v \<in> set [?da, ?zi]. lang_preferred v) \<and> (\<exists>v \<in> set [?da, ?zi]. name_preferred v)"
    by (simp add: lang_examples name_examples)
  with preferred_voice_order [of "[?da, ?zi]"]
  have "\<exists>i < length [?da, ?zi]. getPreferredVoice [?da, ?zi] = Some ([?da, ?zi] ! i)
          \<and> name_preferred ([?da, ?zi] ! i) \<and> (\<forall>j < i. \<not> name_preferred ([?da, ?zi] ! j))"
    by blast
  then obtain k where k: "k < length [?da, ?zi]"
    and gk: "getPreferredVoice [?da, ?zi] = Some ([?da, ?zi] ! k)"
    and pk: "name_preferred ([?da, ?zi] ! k)"
    by blast
  from k have "k = 0 \<or> k = 1" by (simp add: less_Suc_eq)
  with pk name_examples(1) have "k = 1" by auto
  with gk have b: "getPreferredVoice [?da, ?zi] = Some ?zi" by simp
  have 3: "\<not> (\<exists>v \<in> set [?da]. lang_preferred v) \<and> \<not> (\<exists>v \<in> set [?da]. name_preferred v) \<and> [?da] \<noteq> []"
    by (simp add: lang_examples name_examples)
  from preferred_voice_order [of "[?da]"] 3
  have c: "getPreferredVoice [?da] = Some ?da" by simp
  from preferred_voice_order [of "[]"] have d: "getPreferredVoice [] = None" by simp
  from a b c d show ?thesis by simp
qed

section \<open>The recognition result handler\<close>

lemma lyra_request_cong:
  "currentSpeaker (state w') = currentSpeaker (state w) \<Longrightarrow> mode (state w') = mode (state w)
   \<Longrightarrow> lyra_request m w' = lyra_request m w"
  by (simp add: lyra_request_def)

lemma request_returns:
  assumes "displayable w" and "sanitizeSpokenInput u = Inr m"
  shows "fst (sendToLyra_request u w) = None"
    and "requests (snd (sendToLyra_request u w)) = requests w @ [lyra_request m w]"
proof -
  define w1 where "w1 = snd (setStatus (lit ''Thinking'') w)"
  from assms(1) have s: "setStatus (lit ''Thinking'') w = (None, w1)"
    unfolding w1_def by (rule setStatus_returns)
  have l: "lyra_request m w1 = lyra_request m w"
    by (rule lyra_request_cong) (simp_all add: w1_def)
  have r: "sendToLyra_request u w = (None, fetch (lyra_request m w) w1)"
    by (simp add: sendToLyra_request_def s assms(2) l)
  then show "fst (sendToLyra_request u w) = None" by simp
  from r show "requests (snd (sendToLyra_request u w)) = requests w @ [lyra_request m w]"
    by (simp add: fetch_def w1_def)
qed

lemma request_thinking:
  assumes "sanitizeSpokenInput u = Inr m"
  shows "status (state (snd (sendToLyra_request u w))) = lit ''Thinking''"
proof -
  obtain r w1 where s: "setStatus (lit ''Thinking'') w = (r, w1)"
    by (cases "setStatus (lit ''Thinking'') w")
  then have "w1 = snd (setStatus (lit ''Thinking'') w)" by simp
  then have w1: "status (state w1) = lit ''Thinking''" by simp
  show ?thesis
  proof (cases r)
    case None
    with s w1 assms show ?thesis by (simp add: sendToLyra_request_def fetch_def)
  next
    case (Some e)
    with s w1 show ?thesis by (simp add: sendToLyra_request_def)
  qed
qed

text \<open>
  Claim C7. When the transcript taken from a recognition result (the empty string when
  any part of \<open>results[0][0].transcript\<close> is missing) sanitizes to the empty string,
  the handler calls \<open>setStatus('Idle')\<close> and nothing else: the status is \<open>Idle\<close>,
  \<open>sendToLyra\<close> is not called and no fetch is issued. When it sanitizes to a non-empty
  string, the handler is the call of \<open>sendToLyra\<close> on that string: the status becomes
  \<open>Thinking\<close> and, while \<open>state.currentSpeaker\<close> and \<open>state.mode\<close> are values
  \<open>String\<close> converts, exactly one fetch is issued, carrying the sanitized text.
\<close>

theorem onresult_dispatch:
  "(sanitizeSpokenInput (extract_transcript results) = Inr [] \<longrightarrow>
      onresult results w = setStatus (lit ''Idle'') w
      \<and> status (state (snd (onresult results w))) = lit ''Idle''
      \<and> requests (snd (onresult results w)) = requests w
      \<and> effects (snd (onresult results w)) = effects w)
   \<and> (\<forall>c. sanitizeSpokenInput (extract_transcript results) = Inr c \<and> c \<noteq> [] \<longrightarrow>
      onresult results w = sendToLyra_request (JStr c) w
      \<and> status (state (snd (onresult results w))) = lit ''Thinking''
      \<and> (displayable w \<longrightarrow>
           fst (onresult results w) = None
           \<and> requests (snd (onresult results w)) =
               requests w @ [lyra_request (take 600 (pipeline c)) w]))
   \<and> sanitizeSpokenInput (extract_transcript JUndefined) = Inr []
   \<and> sanitizeSpokenInput (extract_transcript (JArr [])) = Inr []
   \<and> sanitizeSpokenInput (extract_transcript (JArr [JArr []])) = Inr []
   \<and> sanitizeSpokenInput (extract_transcript (JArr [JArr [JObj []]])) = Inr []"
proof -
  have x: "extract_transcript JUndefined = JStr []" "extract_transcript (JArr []) = JStr []"
    "extract_transcript (JArr [JArr []]) = JStr []"
    "extract_transcript (JArr [JArr [JObj []]]) = JStr []"
    by (simp_all add: extract_transcript_def opt_prop_def or_else_def)
  have 1: "sanitizeSpokenInput (extract_transcript results) = Inr [] \<longrightarrow>
      onresult results w = setStatus (lit ''Idle'') w
      \<and> status (state (snd (onresult results w))) = lit ''Idle''
      \<and> requests (snd (onresult results w)) = requests w
      \<and> effects (snd (onresult results w)) = effects w"
    by (simp add: onresult_def)
  have 2: "\<forall>c. sanitizeSpokenInput (extract_transcript results) = Inr c \<and> c \<noteq> [] \<longrightarrow>
      onresult results w = sendToLyra_request (JStr c) w
      \<and> status (state (snd (onresult results w))) = lit ''Thinking''
      \<and> (displayable w \<longrightarrow>
           fst (onresult results w) = None
           \<and> requests (snd (onresult results w)) =
               requests w @ [lyra_request (take 600 (pipeline c)) w])"
  proof (intro allI impI, elim conjE)
    fix c assume c: "sanitizeSpokenInput (extract_transcript results) = Inr c" "c \<noteq> []"
    then have o: "onresult results w = sendToLyra_request (JStr c) w"
      by (simp add: onresult_def)
    have m: "sanitizeSpokenInput (JStr c) = Inr (take 600 (pipeline c))" by (rule sanitize_JStr)
    show "onresult results w = sendToLyra_request (JStr c) w
      \<and> status (state (snd (onresult results w))) = lit ''Thinking''
      \<and> (displayable w \<longrightarrow>
           fst (onresult results w) = None
           \<and> requests (snd (onresult results w)) =
               requests w @ [lyra_request (take 600 (pipeline c)) w])"
      using o request_thinking [OF m, of w] request_returns [OF _ m, of w] by simp
  qed
  have 3: "sanitizeSpokenInput (extract_transcript JUndefined) = Inr []"
    and 4: "sanitizeSpokenInput (extract_transcript (JArr [])) = Inr []"
    and 5: "sanitizeSpokenInput (extract_transcript (JArr [JArr []])) = Inr []"
    and 6: "sanitizeSpokenInput (extract_transcript (JArr [JArr [JObj []]])) = Inr []"
    by (simp_all add: x sanitize_falsy)
  from 1 2 3 4 5 6 show ?thesis by (intro conjI)
qed

theorem onresult_dispatch_witness:
  "sanitizeSpokenInput (extract_transcript (JArr [JArr [JObj [(lit ''transcript'', JStr (lit ''   ''))]]]))
     = Inr []
   \<and> status (state (snd (onresult (JArr [JArr [JObj [(lit ''transcript'', JStr (lit ''   ''))]]])
        example_page))) = lit ''Idle''
   \<and> requests (snd (onresult (JArr [JArr [JObj [(lit ''transcript'', JStr (lit ''   ''))]]])
        example_page)) = []
   \<and> sanitizeSpokenInput (extract_transcript hello_results) = Inr (lit ''hello world!!'')
   \<and> lit ''hello world!!'' \<noteq> []
   \<and> displayable example_page
   \<and> onresult hello_results example_page
       = sendToLyra_request (JStr (lit ''hello world!!'')) example_page
   \<and> status (state (snd (onresult hello_results example_page))) = lit ''Thinking''
   \<and> length (requests (snd (onresult hello_results example_page))) = 1"
proof -
  let ?blank = "JArr [JArr [JObj [(lit ''transcript'', JStr (lit ''   ''))]]]"
  have e: "sanitizeSpokenInput (extract_transcript ?blank) = Inr []"
    by code_simp
  have h: "sanitizeSpokenInput (extract_transcript hello_results) = Inr (lit ''hello world!!'')"
    by code_simp
  note b = onresult_dispatch [of ?blank example_page, THEN conjunct1, THEN mp, OF e]
  from b have i: "status (state (snd (onresult ?blank example_page))) = lit ''Idle''"
    and r: "requests (snd (onresult ?blank example_page)) = []"
    by (simp_all add: example_page_fields)
  have n: "lit ''hello world!!'' \<noteq> []" by simp
  note g = onresult_dispatch [of hello_results example_page, THEN conjunct2, THEN conjunct1,
      THEN spec, THEN mp, OF conjI, OF h n]
  from g have d: "onresult hello_results example_page
       = sendToLyra_request (JStr (lit ''hello world!!'')) example_page"
    by (rule conjunct1)
  from g have t: "status (state (snd (onresult hello_results example_page))) = lit ''Thinking''"
    by (rule conjunct2 [THEN conjunct1])
  note g [THEN conjunct2, THEN conjunct2, THEN mp, OF example_page_fields(8), THEN conjunct2]
  then have l: "length (requests (snd (onresult hello_results example_page))) = 1"
    by (simp add: example_page_fields)
  from e i r h n example_page_fields(8) d t l show ?thesis by (intro conjI)
qed

end
